theory Spec2Isabelle
  imports
    Main
    "HOL-Library.Word"
    "HOL-Library.FSet"
    "HOL-Library.Char_ord"
    "HOL-Library.List_Lexorder"
begin

unbundle bit_operations_syntax

section \<open>The build coordinator of build.cc: data model\<close>

text \<open>
  The theory embeds the goal scheduler and the derivation and substitution goals of
  build.cc (the file src/unnamed/part_001) together with the fragment of store.cc they
  call. C++ objects become records, \<^verbatim>\<open>std::set\<close> becomes a finite set (iterated in
  increasing order, as the C++ iterator does), \<^verbatim>\<open>std::map\<close> becomes a partial function,
  \<^verbatim>\<open>unsigned int\<close> and \<^verbatim>\<open>pid_t\<close> become 32-bit words, and a thrown exception or a failed
  \<^verbatim>\<open>assert\<close> becomes the left summand of the result.
\<close>

type_synonym Path = string
type_synonym PathSet = "Path fset"
type_synonym Paths = "Path list"
type_synonym Strings = "string list"
type_synonym GoalPtr = nat
type_synonym pid_t = "32 word"
type_synonym uint = "32 word"

text \<open>
  Exceptions. \<open>ExnClass\<close> is the C++ class of the thrown object (\<^verbatim>\<open>BuildError\<close>,
  \<^verbatim>\<open>SubstError\<close> and \<^verbatim>\<open>SysError\<close> derive from \<^verbatim>\<open>Error\<close>); \<open>Message\<close> is the format string
  with its arguments, one constructor per \<^verbatim>\<open>throw\<close> site of the embedded code:
  \<^item> \<open>MsgNoChildren\<close>: "waiting for a build slot, yet there are no children - maybe the
    build hook gave an inappropriate `postpone' reply?"
  \<^item> \<open>MsgObstructed p\<close>: "obstructed build: path `p' exists"
  \<^item> \<open>MsgPlatform need have drv\<close>: "a `need' is required to build `drv', but I am a `have'"
  \<^item> \<open>MsgHashMismatch p algo expected actual\<close>: "output path `p should have algo hash
    `expected', instead has `actual'"
  \<^item> \<open>MsgNotRegular p\<close>: "output path `p should be a non-executable regular file"
  \<^item> \<open>MsgExternal\<close>: an exception raised inside a helper that is a parameter of the model.
  \<open>Abort\<close> is a failed \<^verbatim>\<open>assert\<close> (the process aborts). \<open>Exec prog argv envp\<close> ends
  the branch that runs in a forked child: the child replaces its image by \<open>prog\<close> and
  never returns to the coordinator's code (\<open>envp = None\<close> is \<^verbatim>\<open>execl\<close>/\<^verbatim>\<open>execv\<close>, which
  keep the inherited environment; \<open>Some e\<close> is \<^verbatim>\<open>execve\<close> with the environment \<open>e\<close>).
\<close>

datatype ExnClass = Error | SysError | BuildError | SubstError

datatype Message =
    MsgNoChildren
  | MsgObstructed Path
  | MsgPlatform string string Path
  | MsgBadHookReply string
  | MsgUnableToFork
  | MsgReadingLine
  | MsgUnexpectedEOF
  | MsgCreatingLogFile Path
  | MsgBlockedByOutputs Path
  | MsgNonExistentOutput Path string Path
  | MsgFailedToProduce Path Path
  | MsgUnknownHashAlgo string
  | MsgHashMismatch Path string string string
  | MsgNotRegular Path
  | MsgGettingAttributes Path
  | MsgNotInStore Path
  | MsgCannotSetReferences Path
  | MsgPathNotValid Path
  | MsgReferencesNotRealised Path
  | MsgBuilderStatus Path int
  | MsgDidNotProduce Path
  | MsgMalformedHash string
  | MsgExternal string

datatype exn =
    Throw ExnClass Message
  | Abort
  | Exec Path Strings "(string \<rightharpoonup> string) option"

text \<open>Process-wide settings of globals.hh that the embedded code reads.\<close>

record Globals =
  keepGoing :: bool
  tryFallback :: bool
  keepFailed :: bool
  maxBuildJobs :: uint
  thisSystem :: string
  nixStore :: Path
  nixLogDir :: Path

subsection \<open>Goals and the worker\<close>

text \<open>
  A \<^verbatim>\<open>GoalPtr\<close> is the address of a goal object; the heap \<open>goals\<close> maps the addresses of
  the goals that are alive to their base-class fields. A \<^verbatim>\<open>weak_ptr\<close> is an address
  too, and \<^verbatim>\<open>lock()\<close> succeeds when the address is still in the heap. Goals are not
  deallocated while one of the embedded operations runs. \<open>cls\<close> is the dynamic class
  of the object (it selects the override of the virtual \<^verbatim>\<open>waiteeDone\<close>), and \<open>success\<close>
  is the field of \<^verbatim>\<open>PseudoGoal\<close>.
\<close>

datatype GoalClass = DerivationGoalC | SubstitutionGoalC | PseudoGoalC

record Goal =
  waitees :: "GoalPtr fset"
  waiters :: "GoalPtr fset"
  nrFailed :: uint
  done_flag :: bool
  cls :: GoalClass
  success :: bool

record Child =
  goal :: GoalPtr
  fdOutput :: int
  inBuildSlot :: bool

record Worker =
  topGoals :: "GoalPtr fset"
  awake :: "GoalPtr fset"
  wantingToBuild :: "GoalPtr fset"
  children :: "pid_t \<rightharpoonup> Child"
  nrChildren :: uint
  derivationGoals :: "Path \<rightharpoonup> GoalPtr"
  substitutionGoals :: "Path \<rightharpoonup> GoalPtr"

record State =
  goals :: "GoalPtr \<rightharpoonup> Goal"
  worker :: Worker

definition updGoal :: "GoalPtr \<Rightarrow> (Goal \<Rightarrow> Goal) \<Rightarrow> (GoalPtr \<rightharpoonup> Goal) \<Rightarrow> (GoalPtr \<rightharpoonup> Goal)" where
  "updGoal g f gs = (case gs g of None \<Rightarrow> gs | Some x \<Rightarrow> gs(g \<mapsto> f x))"

fun foldE :: "('a \<Rightarrow> 's \<Rightarrow> 'e + 's) \<Rightarrow> 'a list \<Rightarrow> 's \<Rightarrow> 'e + 's" where
  "foldE f [] s = Inr s"
| "foldE f (x # xs) s = (case f x s of Inl e \<Rightarrow> Inl e | Inr s' \<Rightarrow> foldE f xs s')"

text \<open>\<^verbatim>\<open>Worker::Worker\<close>, \<^verbatim>\<open>Worker::wakeUp\<close>, \<^verbatim>\<open>Worker::removeGoal\<close>, \<^verbatim>\<open>Worker::canBuildMore\<close>.\<close>

definition Worker_init :: Worker where
  "Worker_init = \<lparr>topGoals = {||}, awake = {||}, wantingToBuild = {||},
     children = Map.empty, nrChildren = 0,
     derivationGoals = Map.empty, substitutionGoals = Map.empty\<rparr>"

definition wakeUp :: "GoalPtr \<Rightarrow> Worker \<Rightarrow> Worker" where
  "wakeUp g w = w\<lparr>awake := finsert g (awake w)\<rparr>"

definition removeGoal :: "GoalPtr \<Rightarrow> Worker \<Rightarrow> Worker" where
  "removeGoal g w = w\<lparr>topGoals := topGoals w |-| {|g|}\<rparr>"

definition canBuildMore :: "Globals \<Rightarrow> Worker \<Rightarrow> bool" where
  "canBuildMore G w = (nrChildren w < maxBuildJobs G)"

text \<open>\<^verbatim>\<open>Worker::childStarted\<close> and \<^verbatim>\<open>Worker::childTerminated\<close>.\<close>

definition childStarted :: "GoalPtr \<Rightarrow> pid_t \<Rightarrow> int \<Rightarrow> bool \<Rightarrow> Worker \<Rightarrow> Worker" where
  "childStarted g p fd slot w =
     (let w1 = w\<lparr>children := (children w)(p \<mapsto> \<lparr>goal = g, fdOutput = fd, inBuildSlot = slot\<rparr>)\<rparr>
      in if slot then w1\<lparr>nrChildren := nrChildren w1 + 1\<rparr> else w1)"

definition childTerminated ::
  "(GoalPtr \<rightharpoonup> Goal) \<Rightarrow> pid_t \<Rightarrow> bool \<Rightarrow> Worker \<Rightarrow> exn + Worker" where
  "childTerminated gs p wakeSleepers w =
     (case children w p of
        None \<Rightarrow> Inl Abort
      | Some c \<Rightarrow>
          if inBuildSlot c \<and> \<not> (nrChildren w > 0) then Inl Abort
          else
            let w1 = (if inBuildSlot c then w\<lparr>nrChildren := nrChildren w - 1\<rparr> else w);
                w2 = w1\<lparr>children := (children w1)(p := None)\<rparr>
            in if wakeSleepers
               then Inr ((fold (\<lambda>g w'. if gs g \<noteq> None then wakeUp g w' else w')
                            (sorted_list_of_fset (wantingToBuild w2)) w2)
                         \<lparr>wantingToBuild := {||}\<rparr>)
               else Inr w2)"

text \<open>\<^verbatim>\<open>Worker::waitForBuildSlot\<close>.\<close>

definition waitForBuildSlot :: "Globals \<Rightarrow> GoalPtr \<Rightarrow> bool \<Rightarrow> Worker \<Rightarrow> exn + Worker" where
  "waitForBuildSlot G g reallyWait w =
     (if reallyWait \<and> dom (children w) = {} then Inl (Throw Error MsgNoChildren)
      else if \<not> reallyWait \<and> canBuildMore G w then Inr (wakeUp g w)
      else Inr (w\<lparr>wantingToBuild := finsert g (wantingToBuild w)\<rparr>))"

text \<open>\<^verbatim>\<open>Goal::addWaitee\<close>.\<close>

definition addWaitee :: "GoalPtr \<Rightarrow> GoalPtr \<Rightarrow> 'z State_scheme \<Rightarrow> 'z State_scheme" where
  "addWaitee this waitee s =
     s\<lparr>goals := updGoal waitee (\<lambda>x. x\<lparr>waiters := finsert this (waiters x)\<rparr>)
                  (updGoal this (\<lambda>x. x\<lparr>waitees := finsert waitee (waitees x)\<rparr>) (goals s))\<rparr>"

text \<open>
  \<^verbatim>\<open>Goal::waiteeDone\<close>, the base-class implementation. The inner loop of the source
  rebuilds \<^verbatim>\<open>goal->waiters\<close> without the entries that lock to \<^verbatim>\<open>this\<close>; an expired entry
  locks to null and is kept, so the loop removes exactly the address of \<^verbatim>\<open>this\<close>.
\<close>

definition Goal_waiteeDone :: "Globals \<Rightarrow> GoalPtr \<Rightarrow> GoalPtr \<Rightarrow> bool \<Rightarrow> 'z State_scheme \<Rightarrow> exn + 'z State_scheme" where
  "Goal_waiteeDone G this waitee ok s =
     (case goals s this of
        None \<Rightarrow> Inl Abort
      | Some t \<Rightarrow>
          if waitee |\<notin>| waitees t then Inl Abort
          else
            let gs1 = updGoal this (\<lambda>x. x\<lparr>waitees := waitees x |-| {|waitee|}\<rparr>) (goals s);
                gs2 = (if \<not> ok then updGoal this (\<lambda>x. x\<lparr>nrFailed := nrFailed x + 1\<rparr>) gs1 else gs1);
                rest = waitees t |-| {|waitee|}
            in if rest = {||} \<or> (\<not> ok \<and> \<not> keepGoing G)
               then
                 let gs3 = fold (\<lambda>h. updGoal h (\<lambda>x. x\<lparr>waiters := waiters x |-| {|this|}\<rparr>))
                             (sorted_list_of_fset rest) gs2;
                     gs4 = updGoal this (\<lambda>x. x\<lparr>waitees := {||}\<rparr>) gs3
                 in Inr (s\<lparr>goals := gs4, worker := wakeUp this (worker s)\<rparr>)
               else Inr (s\<lparr>goals := gs2\<rparr>))"

text \<open>\<^verbatim>\<open>PseudoGoal::waiteeDone\<close>, and the virtual call \<^verbatim>\<open>goal->waiteeDone(...)\<close>.\<close>

definition PseudoGoal_waiteeDone :: "GoalPtr \<Rightarrow> GoalPtr \<Rightarrow> bool \<Rightarrow> 'z State_scheme \<Rightarrow> exn + 'z State_scheme" where
  "PseudoGoal_waiteeDone this waitee ok s =
     Inr (if \<not> ok then s\<lparr>goals := updGoal this (\<lambda>x. x\<lparr>success := False\<rparr>) (goals s)\<rparr> else s)"

definition waiteeDone :: "Globals \<Rightarrow> GoalPtr \<Rightarrow> GoalPtr \<Rightarrow> bool \<Rightarrow> 'z State_scheme \<Rightarrow> exn + 'z State_scheme" where
  "waiteeDone G this waitee ok s =
     (case goals s this of
        None \<Rightarrow> Inl Abort
      | Some t \<Rightarrow>
          (case cls t of
             PseudoGoalC \<Rightarrow> PseudoGoal_waiteeDone this waitee ok s
           | _ \<Rightarrow> Goal_waiteeDone G this waitee ok s))"

text \<open>\<^verbatim>\<open>Goal::amDone\<close>.\<close>

definition amDone :: "Globals \<Rightarrow> GoalPtr \<Rightarrow> bool \<Rightarrow> 'z State_scheme \<Rightarrow> exn + 'z State_scheme" where
  "amDone G this ok s =
     (case goals s this of
        None \<Rightarrow> Inl Abort
      | Some t \<Rightarrow>
          if done_flag t then Inl Abort
          else
            let s1 = s\<lparr>goals := updGoal this (\<lambda>x. x\<lparr>done_flag := True\<rparr>) (goals s)\<rparr>
            in (case foldE (\<lambda>h s'. if goals s' h \<noteq> None then waiteeDone G h this ok s' else Inr s')
                       (sorted_list_of_fset (waiters t)) s1 of
                  Inl e \<Rightarrow> Inl e
                | Inr s2 \<Rightarrow>
                    Inr (s2\<lparr>goals := updGoal this (\<lambda>x. x\<lparr>waiters := {||}\<rparr>) (goals s2),
                            worker := removeGoal this (worker s2)\<rparr>)))"

subsection \<open>The metadata database (store.cc)\<close>

record Substitute =
  sub_deriver :: Path
  sub_program :: Path
  sub_args :: Strings

text \<open>
  The five tables of store.cc. The substitutes table holds the decoded substitute
  lists (what \<^verbatim>\<open>readSubstitutes\<close> returns).
\<close>

record Database =
  dbValidPaths :: "Path \<rightharpoonup> string"
  dbReferences :: "Path \<rightharpoonup> Paths"
  dbReferers :: "Path \<rightharpoonup> Paths"
  dbSubstitutes :: "Path \<rightharpoonup> Substitute list"
  dbDerivers :: "Path \<rightharpoonup> Path"

text \<open>
  Modelled from the spec: the database layer (db.cc, class \<^verbatim>\<open>Transaction\<close>) is not in the
  tree. Following the spec's MetaStore interface (begin, commit, rollback on drop;
  updates of one transaction are atomic against crashes; a reader outside a transaction
  sees the last committed write), a transaction is a private copy of the tables that
  the operations of store.cc read and write; \<^verbatim>\<open>commit\<close> installs the copy, and a
  transaction that is dropped leaves the committed tables as they were.
  \<^verbatim>\<open>queryStrings\<close> yields the empty list for an absent key.
\<close>

type_synonym Transaction = Database

definition queryStrings :: "(Path \<rightharpoonup> Strings) \<Rightarrow> Path \<Rightarrow> Strings" where
  "queryStrings table k = (case table k of None \<Rightarrow> [] | Some ss \<Rightarrow> ss)"

definition isValidPathTxn :: "Transaction \<Rightarrow> Path \<Rightarrow> bool" where
  "isValidPathTxn txn p = (dbValidPaths txn p \<noteq> None)"

definition isValidPath :: "Database \<Rightarrow> Path \<Rightarrow> bool" where
  "isValidPath d p = isValidPathTxn d p"

definition readSubstitutes :: "Transaction \<Rightarrow> Path \<Rightarrow> Substitute list" where
  "readSubstitutes txn p = (case dbSubstitutes txn p of None \<Rightarrow> [] | Some ss \<Rightarrow> ss)"

definition querySubstitutes :: "Transaction \<Rightarrow> Path \<Rightarrow> Substitute list" where
  "querySubstitutes txn p = readSubstitutes txn p"

definition isRealisablePath :: "Transaction \<Rightarrow> Path \<Rightarrow> bool" where
  "isRealisablePath txn p = (isValidPathTxn txn p \<or> length (readSubstitutes txn p) > 0)"

definition getReferers :: "Transaction \<Rightarrow> Path \<Rightarrow> PathSet" where
  "getReferers txn p = fset_of_list (queryStrings (dbReferers txn) p)"

definition setReferences :: "Transaction \<Rightarrow> Path \<Rightarrow> PathSet \<Rightarrow> exn + Transaction" where
  "setReferences txn storePath refs =
     (if \<not> isRealisablePath txn storePath
      then Inl (Throw Error (MsgCannotSetReferences storePath))
      else
        let oldReferences = queryStrings (dbReferences txn) storePath;
            txn1 = txn\<lparr>dbReferences := (dbReferences txn)(storePath \<mapsto> sorted_list_of_fset refs)\<rparr>;
            txn2 = fold (\<lambda>i x. x\<lparr>dbReferers := (dbReferers x)
                               (i \<mapsto> sorted_list_of_fset (finsert storePath (getReferers x i)))\<rparr>)
                     (sorted_list_of_fset refs) txn1;
            txn3 = fold (\<lambda>i x. if i |\<notin>| refs
                                then x\<lparr>dbReferers := (dbReferers x)
                                       (i \<mapsto> sorted_list_of_fset (getReferers x i |-| {|storePath|}))\<rparr>
                                else x)
                     oldReferences txn2
        in Inr txn3)"

definition queryReferences :: "Transaction \<Rightarrow> Path \<Rightarrow> PathSet \<Rightarrow> exn + PathSet" where
  "queryReferences txn storePath refs =
     (if \<not> isRealisablePath txn storePath then Inl (Throw Error (MsgPathNotValid storePath))
      else Inr (refs |\<union>| fset_of_list (queryStrings (dbReferences txn) storePath)))"

text \<open>\<^verbatim>\<open>isInStore\<close>, \<^verbatim>\<open>isStorePath\<close>, \<^verbatim>\<open>assertStorePath\<close>.\<close>

definition isInStore :: "Globals \<Rightarrow> Path \<Rightarrow> bool" where
  "isInStore G p =
     ((case p of [] \<Rightarrow> False | c # _ \<Rightarrow> c = CHR ''/'')
      \<and> take (length (nixStore G)) p = nixStore G
      \<and> length p \<ge> length (nixStore G) + 2
      \<and> p ! length (nixStore G) = CHR ''/'')"

definition isStorePath :: "Globals \<Rightarrow> Path \<Rightarrow> bool" where
  "isStorePath G p = (isInStore G p \<and> CHR ''/'' \<notin> set (drop (length (nixStore G) + 1) p))"

definition assertStorePath :: "Globals \<Rightarrow> Path \<Rightarrow> exn option" where
  "assertStorePath G p = (if \<not> isStorePath G p then Some (Throw Error (MsgNotInStore p)) else None)"

subsection \<open>Helpers that are parameters of the model\<close>

datatype HashType = htUnknown | htMD5 | htSHA1 | htSHA256

datatype Hash = Hash HashType string

record DerivationOutput =
  path :: Path
  hashAlgo :: string
  hash :: string

record Derivation =
  outputs :: "(string \<times> DerivationOutput) list"
  inputDrvs :: "(Path \<times> string fset) list"
  inputSrcs :: PathSet
  platform :: string
  builder :: Path
  args :: Strings
  env :: "string \<rightharpoonup> string"

text \<open>
  The file system and the functions of util.cc, hash.cc, references.cc, archive.cc,
  misc.cc and derivations.cc that build.cc calls are not in the tree; the model takes
  them as the fields of one record, over an arbitrary type \<open>'fs\<close> of file system
  states. A helper that can throw returns a sum. \<open>lstat_mode\<close> is the \<^verbatim>\<open>st_mode\<close> that
  \<^verbatim>\<open>lstat\<close> reports (\<open>None\<close> when \<^verbatim>\<open>lstat\<close> fails). \<^verbatim>\<open>canonicalisePathMetaData\<close> of store.cc
  only rewrites permissions, owner and modification time through \<^verbatim>\<open>chmod\<close>, \<^verbatim>\<open>chown\<close> and
  \<^verbatim>\<open>utime\<close>; it is a field too. The entries of the two \<^verbatim>\<open>std::map\<close>s of a derivation
  are listed in iteration order.
\<close>

record 'fs Externals =
  pathExists :: "'fs \<Rightarrow> Path \<Rightarrow> bool"
  deletePath :: "'fs \<Rightarrow> Path \<Rightarrow> exn + 'fs"
  lstat_mode :: "'fs \<Rightarrow> Path \<Rightarrow> 32 word option"
  canonicalisePathMetaData :: "'fs \<Rightarrow> Path \<Rightarrow> exn + 'fs"
  canonPath :: "Path \<Rightarrow> Path"
  baseNameOf :: "Path \<Rightarrow> string"
  parseHashType :: "string \<Rightarrow> HashType"
  parseHash :: "HashType \<Rightarrow> string \<Rightarrow> exn + Hash"
  printHash :: "Hash \<Rightarrow> string"
  hashFile :: "HashType \<Rightarrow> 'fs \<Rightarrow> Path \<Rightarrow> exn + Hash"
  hashPath :: "HashType \<Rightarrow> 'fs \<Rightarrow> Path \<Rightarrow> exn + Hash"
  filterReferences :: "'fs \<Rightarrow> Path \<Rightarrow> Paths \<Rightarrow> exn + Paths"
  derivationFromPath :: "'fs \<Rightarrow> Path \<Rightarrow> exn + Derivation"
  computeFSClosure :: "Database \<Rightarrow> Path \<Rightarrow> PathSet \<Rightarrow> exn + PathSet"

text \<open>\<^verbatim>\<open>setHash\<close> of store.cc.\<close>

definition setHash :: "'fs Externals \<Rightarrow> Transaction \<Rightarrow> Path \<Rightarrow> Hash \<Rightarrow> exn + Transaction" where
  "setHash X txn storePath h =
     (case h of Hash ht bytes \<Rightarrow>
        if ht \<noteq> htSHA256 then Inl Abort
        else Inr (txn\<lparr>dbValidPaths := (dbValidPaths txn)(storePath \<mapsto> ''sha256:'' @ printHash X h)\<rparr>))"

text \<open>
  Modelled from the spec: build.cc calls \<^verbatim>\<open>registerValidPath(txn, path, hash)\<close> with three
  arguments and stores the references of a built output by a separate call of
  \<^verbatim>\<open>setReferences\<close>; the store.cc in the tree declares \<^verbatim>\<open>registerValidPath\<close> with two more
  arguments (references and deriver), so the function build.cc calls is missing. The
  model keeps the part of the body in the tree that the three arguments determine:
  \<^verbatim>\<open>canonPath\<close>, \<^verbatim>\<open>assertStorePath\<close> and \<^verbatim>\<open>setHash\<close>, which writes the entry of the spec's
  table "validPaths: path -> sha256:hex content hash" and no other table.
\<close>

definition registerValidPath ::
  "'fs Externals \<Rightarrow> Globals \<Rightarrow> Transaction \<Rightarrow> Path \<Rightarrow> Hash \<Rightarrow> exn + Transaction" where
  "registerValidPath X G txn p0 h =
     (let p = canonPath X p0
      in case assertStorePath G p of
           Some e \<Rightarrow> Inl e
         | None \<Rightarrow> setHash X txn p h)"

text \<open>
  Modelled from the spec: pathlocks.cc is not in the tree. A \<^verbatim>\<open>PathLocks\<close> object holds
  the set of paths it has locked and the flag that \<^verbatim>\<open>setDeletion\<close> sets ("an option marks
  locks for deletion on release once the corresponding path is known to be valid").
\<close>

record PathLocks =
  lockedPaths :: PathSet
  deletePaths :: bool

definition PathLocks_init :: PathLocks where
  "PathLocks_init = \<lparr>lockedPaths = {||}, deletePaths = False\<rparr>"

definition lockPaths :: "PathSet \<Rightarrow> PathLocks \<Rightarrow> PathLocks" where
  "lockPaths ps l = l\<lparr>lockedPaths := lockedPaths l |\<union>| ps\<rparr>"

definition setDeletion :: "bool \<Rightarrow> PathLocks \<Rightarrow> PathLocks" where
  "setDeletion b l = l\<lparr>deletePaths := b\<rparr>"

subsection \<open>The derivation goal\<close>

datatype GoalState =
  gsInit | gsHaveStoreExpr | gsOutputsSubstituted | gsInputsRealised | gsTryToBuild | gsBuildDone

text \<open>
  The fields of \<^verbatim>\<open>DerivationGoal\<close>. Of the pipes and file descriptors the model keeps
  \<open>toHook\<close>, the lines written to the hook; the descriptor that \<^verbatim>\<open>childStarted\<close> receives
  comes from the operating system's answers below. \<open>pid = -1\<close> means no child.
\<close>

record DerivationGoal =
  drvPath :: Path
  drv :: Derivation
  outputLocks :: PathLocks
  inputPaths :: PathSet
  allPaths :: PathSet
  pid :: pid_t
  tmpDir :: Path
  toHook :: Strings
  state :: GoalState

datatype HookReply = rpAccept | rpDecline | rpPostpone | rpDone

datatype ReadLine = Line string | ReadEOF | ReadFailed

text \<open>
  What the operating system answers during one run of \<^verbatim>\<open>tryToBuild\<close>: the value of
  \<^verbatim>\<open>NIX_BUILD_HOOK\<close>, and for the hook and for the local builder the directory that
  \<^verbatim>\<open>createTempDir\<close> returns, whether the log file can be opened, the value that \<^verbatim>\<open>fork\<close>
  returns (\<open>-1\<close> failure, \<open>0\<close> in the child, the child's process id in the parent), the
  read side of the log pipe, and the first line read from the hook.
\<close>

record OS =
  os_buildHook :: string
  os_hookTmpDir :: Path
  os_hookLogFile :: bool
  os_hookFork :: pid_t
  os_hookFd :: int
  os_hookReply :: ReadLine
  os_buildTmpDir :: Path
  os_buildLogFile :: bool
  os_buildFork :: pid_t
  os_buildFd :: int

datatype SubstState = ssInit | ssReferencesValid | ssTryNext | ssTryToRun | ssFinished

record SubstitutionGoal =
  storePath :: Path
  subs :: "Substitute list"
  sub :: Substitute
  references :: PathSet
  spid :: pid_t
  outputLock :: "PathLocks option"
  sstate :: SubstState

text \<open>
  The coordinator's world: the goal heap and the worker, the file system, the committed
  database, the regular files below the temporary directories, and the substitution
  goals that \<^verbatim>\<open>makeSubstitutionGoal\<close> has allocated (\<open>nextGoalPtr\<close> is the address the
  next \<^verbatim>\<open>new\<close> returns). The derived-class fields of the goal whose member function runs
  are passed to the function and returned by it.
\<close>

record 'fs World = State +
  fs :: 'fs
  db :: Database
  tmpFiles :: "Path \<rightharpoonup> string"
  substitutionGoalObjs :: "GoalPtr \<rightharpoonup> SubstitutionGoal"
  nextGoalPtr :: GoalPtr

type_synonym ('a, 'fs) dres = "(exn \<times> DerivationGoal \<times> 'fs World) + ('a \<times> DerivationGoal \<times> 'fs World)"

text \<open>\<^verbatim>\<open>outputPaths\<close> and \<^verbatim>\<open>DerivationGoal::checkPathValidity\<close>.\<close>

definition outputPaths :: "(string \<times> DerivationOutput) list \<Rightarrow> PathSet" where
  "outputPaths outs = fold (\<lambda>(n, x). finsert (path x)) outs {||}"

definition checkPathValidity :: "Database \<Rightarrow> DerivationGoal \<Rightarrow> bool \<Rightarrow> PathSet" where
  "checkPathValidity dbs d returnValid =
     fold (\<lambda>(n, x) r.
             if isValidPath dbs (path x)
             then (if returnValid then finsert (path x) r else r)
             else (if \<not> returnValid then finsert (path x) r else r))
          (outputs (drv d)) {||}"

text \<open>\<^verbatim>\<open>DerivationGoal::deleteTmpDir\<close>; \<^verbatim>\<open>deletePath(tmpDir)\<close> removes every file below it.\<close>

definition deleteTmpDir :: "Globals \<Rightarrow> bool \<Rightarrow> DerivationGoal \<Rightarrow> 'fs World \<Rightarrow> DerivationGoal \<times> 'fs World" where
  "deleteTmpDir G force d W =
     (if tmpDir d \<noteq> []
      then (if keepFailed G \<and> \<not> force
            then (d\<lparr>tmpDir := []\<rparr>, W)
            else (d\<lparr>tmpDir := []\<rparr>,
                  W\<lparr>tmpFiles := (\<lambda>q. if q = tmpDir d \<or> take (length (tmpDir d) + 1) q = tmpDir d @ ''/''
                                      then None else tmpFiles W q)\<rparr>))
      else (d, W))"

text \<open>\<^verbatim>\<open>DerivationGoal::terminateBuildHook\<close>; \<^verbatim>\<open>pid.wait(true)\<close> reaps the child and resets \<open>pid\<close>.\<close>

definition terminateBuildHook :: "Globals \<Rightarrow> DerivationGoal \<Rightarrow> 'fs World \<Rightarrow> (unit, 'fs) dres" where
  "terminateBuildHook G d W =
     (let savedPid = pid d; d1 = d\<lparr>pid := - 1\<rparr>
      in case childTerminated (goals W) savedPid False (worker W) of
           Inl e \<Rightarrow> Inl (e, d1, W)
         | Inr w' \<Rightarrow> (case deleteTmpDir G True d1 (W\<lparr>worker := w'\<rparr>) of (d2, W2) \<Rightarrow> Inr ((), d2, W2)))"

text \<open>
  \<^verbatim>\<open>DerivationGoal::prepareBuild\<close>. When a helper throws inside one of the two closure
  loops, the goal is returned with the input paths it had before that loop.
\<close>

definition prepareBuild ::
  "'fs Externals \<Rightarrow> DerivationGoal \<Rightarrow> 'fs World \<Rightarrow> (exn \<times> DerivationGoal) + (bool \<times> DerivationGoal)" where
  "prepareBuild X d W =
     (let d1 = d\<lparr>outputLocks := lockPaths (outputPaths (outputs (drv d))) (outputLocks d)\<rparr>;
          validPaths = checkPathValidity (db W) d1 True
      in if fcard validPaths = length (outputs (drv d1))
         then Inr (False, d1\<lparr>outputLocks := setDeletion True (outputLocks d1)\<rparr>)
         else if fcard validPaths > 0
         then Inl (Throw Error (MsgBlockedByOutputs (drvPath d1)), d1)
         else
           let d2 = d1\<lparr>allPaths := fold (\<lambda>(n, x). finsert (path x)) (outputs (drv d1)) (allPaths d1)\<rparr>
           in (case foldE (\<lambda>(i, names) ip.
                        if \<not> isValidPath (db W) i then Inl Abort
                        else (case derivationFromPath X (fs W) i of
                                Inl e \<Rightarrow> Inl e
                              | Inr inDrv \<Rightarrow>
                                  foldE (\<lambda>j ip'.
                                           case map_of (outputs inDrv) j of
                                             Some x \<Rightarrow> computeFSClosure X (db W) (path x) ip'
                                           | None \<Rightarrow> Inl (Throw Error (MsgNonExistentOutput (drvPath d2) j i)))
                                        (sorted_list_of_fset names) ip))
                     (inputDrvs (drv d2)) (inputPaths d2) of
                Inl e \<Rightarrow> Inl (e, d2)
              | Inr ip \<Rightarrow>
                  let d3 = d2\<lparr>inputPaths := ip, allPaths := allPaths d2 |\<union>| ip\<rparr>
                  in (case foldE (\<lambda>i ip'. computeFSClosure X (db W) i ip')
                              (sorted_list_of_fset (inputSrcs (drv d3))) (inputPaths d3) of
                        Inl e \<Rightarrow> Inl (e, d3)
                      | Inr ip2 \<Rightarrow> Inr (True, d3\<lparr>inputPaths := ip2\<rparr>))))"

text \<open>
  \<^verbatim>\<open>DerivationGoal::startBuilder\<close>. First its loop over the outputs ("If any of the outputs
  already exist but are not registered, delete them"), then the environment it
  constructs for the builder, then the function.
\<close>

fun deleteUnregisteredOutputs ::
  "'fs Externals \<Rightarrow> Database \<Rightarrow> (string \<times> DerivationOutput) list \<Rightarrow> 'fs \<Rightarrow> (exn \<times> 'fs) + 'fs" where
  "deleteUnregisteredOutputs X dbs [] f = Inr f"
| "deleteUnregisteredOutputs X dbs ((n, x) # outs) f =
     (if isValidPath dbs (path x) then Inl (Throw Error (MsgObstructed (path x)), f)
      else if pathExists X f (path x)
      then (case deletePath X f (path x) of
              Inl e \<Rightarrow> Inl (e, f)
            | Inr f' \<Rightarrow> deleteUnregisteredOutputs X dbs outs f')
      else deleteUnregisteredOutputs X dbs outs f)"

definition builderEnv :: "Globals \<Rightarrow> Derivation \<Rightarrow> Path \<Rightarrow> (string \<rightharpoonup> string)" where
  "builderEnv G dr tmp =
     (let e1 = Map.empty(''PATH'' \<mapsto> ''/path-not-set'');
          e2 = e1(''HOME'' \<mapsto> ''/homeless-shelter'');
          e3 = e2(''NIX_STORE'' \<mapsto> nixStore G);
          e4 = e3 ++ env dr;
          e5 = e4(''NIX_BUILD_TOP'' \<mapsto> tmp);
          e6 = e5(''TEMP'' \<mapsto> tmp);
          e7 = e6(''TMP'' \<mapsto> tmp);
          e8 = e7(''TEMPDIR'' \<mapsto> tmp)
      in e8(''TMPDIR'' \<mapsto> tmp))"

definition startBuilder ::
  "'fs Externals \<Rightarrow> Globals \<Rightarrow> OS \<Rightarrow> GoalPtr \<Rightarrow> DerivationGoal \<Rightarrow> 'fs World \<Rightarrow> (unit, 'fs) dres" where
  "startBuilder X G os this d W =
     (if platform (drv d) \<noteq> thisSystem G
      then Inl (Throw BuildError (MsgPlatform (platform (drv d)) (thisSystem G) (drvPath d)), d, W)
      else
        case deleteUnregisteredOutputs X (db W) (outputs (drv d)) (fs W) of
          Inl (e, f) \<Rightarrow> Inl (e, d, W\<lparr>fs := f\<rparr>)
        | Inr f \<Rightarrow>
            let W1 = W\<lparr>fs := f\<rparr>;
                d1 = d\<lparr>tmpDir := os_buildTmpDir os\<rparr>;
                benv = builderEnv G (drv d) (os_buildTmpDir os)
            in if \<not> os_buildLogFile os
               then Inl (Throw SysError (MsgCreatingLogFile (nixLogDir G @ ''/'' @ baseNameOf X (drvPath d))),
                         d1, W1)
               else if os_buildFork os = - 1
               then Inl (Throw SysError MsgUnableToFork, d1\<lparr>pid := - 1\<rparr>, W1)
               else if os_buildFork os = 0
               then Inl (Exec (builder (drv d)) (baseNameOf X (builder (drv d)) # args (drv d)) (Some benv),
                         d1\<lparr>pid := 0\<rparr>, W1)
               else Inr ((), d1\<lparr>pid := os_buildFork os\<rparr>,
                         W1\<lparr>worker := childStarted this (os_buildFork os) (os_buildFd os) True (worker W1)\<rparr>))"

text \<open>
  \<^verbatim>\<open>DerivationGoal::tryBuildHook\<close>. \<open>tryBuildHook_accept\<close> is the branch for the reply
  "accept": it writes the files inputs, outputs and references below the temporary
  directory and tells the hook to proceed.
\<close>

definition tryBuildHook_accept ::
  "'fs Externals \<Rightarrow> Globals \<Rightarrow> DerivationGoal \<Rightarrow> 'fs World \<Rightarrow> (HookReply, 'fs) dres" where
  "tryBuildHook_accept X G d W =
     (case prepareBuild X d W of
        Inl (e, d1) \<Rightarrow> Inl (e, d1, W)
      | Inr (False, d1) \<Rightarrow>
          (case terminateBuildHook G (d1\<lparr>toHook := toHook d1 @ [''cancel'']\<rparr>) W of
             Inl x \<Rightarrow> Inl x
           | Inr (u, d2, W2) \<Rightarrow> Inr (rpDone, d2, W2))
      | Inr (True, d1) \<Rightarrow>
          let nl = [CHR 0x0A];
              s1 = concat (map (\<lambda>i. i @ nl) (sorted_list_of_fset (inputPaths d1)))
                   @ concat (map (\<lambda>(i, names). i @ nl) (inputDrvs (drv d1)));
              s2 = concat (map (\<lambda>(n, x). path x @ nl) (outputs (drv d1)));
              W1 = W\<lparr>tmpFiles := (tmpFiles W)(tmpDir d1 @ ''/inputs'' \<mapsto> s1, tmpDir d1 @ ''/outputs'' \<mapsto> s2)\<rparr>
          in (case foldE (\<lambda>i s.
                        case queryReferences (db W) i {||} of
                          Inl e \<Rightarrow> Inl e
                        | Inr refs \<Rightarrow>
                            Inr (s @ i @ concat (map (\<lambda>j. '' '' @ j) (sorted_list_of_fset refs)) @ nl))
                     (sorted_list_of_fset (inputPaths d1)) [] of
                Inl e \<Rightarrow> Inl (e, d1, W1)
              | Inr s3 \<Rightarrow>
                  Inr (rpAccept, d1\<lparr>toHook := toHook d1 @ [''okay'']\<rparr>,
                       W1\<lparr>tmpFiles := (tmpFiles W1)(tmpDir d1 @ ''/references'' \<mapsto> s3)\<rparr>)))"

definition tryBuildHook ::
  "'fs Externals \<Rightarrow> Globals \<Rightarrow> OS \<Rightarrow> GoalPtr \<Rightarrow> DerivationGoal \<Rightarrow> 'fs World \<Rightarrow> (HookReply, 'fs) dres" where
  "tryBuildHook X G os this d W =
     (if os_buildHook os = [] then Inr (rpDecline, d, W)
      else
        let d1 = d\<lparr>tmpDir := os_hookTmpDir os\<rparr>
        in if \<not> os_hookLogFile os
           then Inl (Throw SysError (MsgCreatingLogFile (nixLogDir G @ ''/'' @ baseNameOf X (drvPath d))),
                     d1, W)
           else if os_hookFork os = - 1
           then Inl (Throw SysError MsgUnableToFork, d1\<lparr>pid := - 1\<rparr>, W)
           else if os_hookFork os = 0
           then Inl (Exec (os_buildHook os)
                          [os_buildHook os, if canBuildMore G (worker W) then ''1'' else ''0'',
                           thisSystem G, platform (drv d), drvPath d] None,
                     d1\<lparr>pid := 0\<rparr>, W)
           else
             let d2 = d1\<lparr>pid := os_hookFork os\<rparr>;
                 W2 = W\<lparr>worker := childStarted this (os_hookFork os) (os_hookFd os) False (worker W)\<rparr>
             in (case os_hookReply os of
                   ReadEOF \<Rightarrow> Inl (Throw Error MsgUnexpectedEOF, d2, W2)
                 | ReadFailed \<Rightarrow> Inl (Throw SysError MsgReadingLine, d2, W2)
                 | Line reply \<Rightarrow>
                     if reply = ''decline'' \<or> reply = ''postpone''
                     then (case terminateBuildHook G d2 W2 of
                             Inl x \<Rightarrow> Inl x
                           | Inr (u, d3, W3) \<Rightarrow>
                               Inr (if reply = ''decline'' then rpDecline else rpPostpone, d3, W3))
                     else if reply = ''accept'' then tryBuildHook_accept X G d2 W2
                     else Inl (Throw Error (MsgBadHookReply reply), d2, W2)))"

text \<open>
  \<^verbatim>\<open>DerivationGoal::tryToBuild\<close>. \<open>tryToBuild_try\<close> is the body of the \<^verbatim>\<open>try\<close> block; its
  Boolean result tells whether control leaves the block at its end (after
  \<^verbatim>\<open>startBuilder\<close>) or through one of the \<^verbatim>\<open>return\<close> statements. Only a \<^verbatim>\<open>BuildError\<close> is
  caught.
\<close>

definition tryToBuild_try ::
  "'fs Externals \<Rightarrow> Globals \<Rightarrow> OS \<Rightarrow> GoalPtr \<Rightarrow> DerivationGoal \<Rightarrow> 'fs World \<Rightarrow> (bool, 'fs) dres" where
  "tryToBuild_try X G os this d W =
     (case tryBuildHook X G os this d W of
        Inl x \<Rightarrow> Inl x
      | Inr (rpAccept, d1, W1) \<Rightarrow> Inr (False, d1\<lparr>state := gsBuildDone\<rparr>, W1)
      | Inr (rpPostpone, d1, W1) \<Rightarrow>
          (case waitForBuildSlot G this True (worker W1) of
             Inl e \<Rightarrow> Inl (e, d1, W1)
           | Inr w' \<Rightarrow> Inr (False, d1, W1\<lparr>worker := w'\<rparr>))
      | Inr (rpDone, d1, W1) \<Rightarrow>
          (case amDone G this True W1 of
             Inl e \<Rightarrow> Inl (e, d1, W1)
           | Inr W2 \<Rightarrow> Inr (False, d1, W2))
      | Inr (rpDecline, d1, W1) \<Rightarrow>
          if \<not> canBuildMore G (worker W1)
          then (case waitForBuildSlot G this False (worker W1) of
                  Inl e \<Rightarrow> Inl (e, d1, W1)
                | Inr w' \<Rightarrow> Inr (False, d1, W1\<lparr>worker := w'\<rparr>))
          else (case prepareBuild X d1 W1 of
                  Inl (e, d2) \<Rightarrow> Inl (e, d2, W1)
                | Inr (False, d2) \<Rightarrow>
                    (case amDone G this True W1 of
                       Inl e \<Rightarrow> Inl (e, d2, W1)
                     | Inr W2 \<Rightarrow> Inr (False, d2, W2))
                | Inr (True, d2) \<Rightarrow>
                    (case startBuilder X G os this d2 W1 of
                       Inl x \<Rightarrow> Inl x
                     | Inr (u, d3, W3) \<Rightarrow> Inr (True, d3, W3))))"

definition tryToBuild ::
  "'fs Externals \<Rightarrow> Globals \<Rightarrow> OS \<Rightarrow> GoalPtr \<Rightarrow> DerivationGoal \<Rightarrow> 'fs World \<Rightarrow> (unit, 'fs) dres" where
  "tryToBuild X G os this d W =
     (case tryToBuild_try X G os this d W of
        Inl (Throw BuildError m, d1, W1) \<Rightarrow>
          (case amDone G this False W1 of
             Inl e \<Rightarrow> Inl (e, d1, W1)
           | Inr W2 \<Rightarrow> Inr ((), d1, W2))
      | Inl x \<Rightarrow> Inl x
      | Inr (True, d1, W1) \<Rightarrow> Inr ((), d1\<lparr>state := gsBuildDone\<rparr>, W1)
      | Inr (False, d1, W1) \<Rightarrow> Inr ((), d1, W1))"

subsection \<open>Registration of outputs: \<^verbatim>\<open>computeClosure\<close>\<close>

text \<open>
  The macros of \<^verbatim>\<open>sys/stat.h\<close> that \<^verbatim>\<open>computeClosure\<close> applies to \<^verbatim>\<open>st_mode\<close>:
  \<^verbatim>\<open>S_IFMT\<close> is octal 0170000, \<^verbatim>\<open>S_IFREG\<close> octal 0100000, \<^verbatim>\<open>S_IXUSR\<close> octal 0100.
\<close>

definition S_ISREG :: "32 word \<Rightarrow> bool" where
  "S_ISREG m = (m AND 0xF000 = 0x8000)"

definition S_IXUSR :: "32 word" where
  "S_IXUSR = 0x40"

text \<open>
  The check of a fixed-output derivation ("Check that fixed-output derivations produced
  the right outputs"): the block guarded by \<^verbatim>\<open>i->second.hash != ""\<close>. The result is the
  exception the block throws, if any.
\<close>

definition checkFixedOutput :: "'fs Externals \<Rightarrow> 'fs \<Rightarrow> DerivationOutput \<Rightarrow> exn option" where
  "checkFixedOutput X f x =
     (if hash x \<noteq> []
      then
        let ht = parseHashType X (hashAlgo x)
        in if ht = htUnknown then Some (Throw Error (MsgUnknownHashAlgo (hashAlgo x)))
           else (case parseHash X ht (hash x) of
                   Inl e \<Rightarrow> Some e
                 | Inr h \<Rightarrow>
                     (case hashFile X ht f (path x) of
                        Inl e \<Rightarrow> Some e
                      | Inr h2 \<Rightarrow>
                          if h \<noteq> h2
                          then Some (Throw Error (MsgHashMismatch (path x) (hashAlgo x)
                                                    (printHash X h) (printHash X h2)))
                          else (case lstat_mode X f (path x) of
                                  None \<Rightarrow> Some (Throw SysError (MsgGettingAttributes (path x)))
                                | Some m \<Rightarrow>
                                    if \<not> S_ISREG m \<or> (m AND S_IXUSR) \<noteq> 0
                                    then Some (Throw Error (MsgNotRegular (path x)))
                                    else None)))
      else None)"

text \<open>
  The body of the first loop of \<^verbatim>\<open>computeClosure\<close>, for one output. The state of the
  loop is the file system and the two local maps \<^verbatim>\<open>allReferences\<close> and \<^verbatim>\<open>contentHashes\<close>.
\<close>

type_synonym 'fs scan = "'fs \<times> (Path \<rightharpoonup> PathSet) \<times> (Path \<rightharpoonup> Hash)"

definition scanOutput ::
  "'fs Externals \<Rightarrow> DerivationGoal \<Rightarrow> DerivationOutput \<Rightarrow> 'fs scan \<Rightarrow> (exn \<times> 'fs scan) + 'fs scan" where
  "scanOutput X d x st =
     (case st of (f, allReferences, contentHashes) \<Rightarrow>
        if \<not> pathExists X f (path x)
        then Inl (Throw BuildError (MsgFailedToProduce (drvPath d) (path x)), st)
        else
          (case checkFixedOutput X f x of
             Some e \<Rightarrow> Inl (e, st)
           | None \<Rightarrow>
               (case canonicalisePathMetaData X f (path x) of
                  Inl e \<Rightarrow> Inl (e, st)
                | Inr f1 \<Rightarrow>
                    (case (if \<not> pathExists X f1 (path x @ ''/nix-support/no-scan'')
                           then (case filterReferences X f1 (path x) (sorted_list_of_fset (allPaths d)) of
                                   Inl e \<Rightarrow> Inl e
                                 | Inr references2 \<Rightarrow> Inr (fset_of_list references2))
                           else Inr {||}) of
                       Inl e \<Rightarrow> Inl (e, (f1, allReferences, contentHashes))
                     | Inr refs \<Rightarrow>
                         (case hashPath X htSHA256 f1 (path x) of
                            Inl e \<Rightarrow> Inl (e, (f1, allReferences(path x \<mapsto> refs), contentHashes))
                          | Inr h \<Rightarrow>
                              Inr (f1, allReferences(path x \<mapsto> refs), contentHashes(path x \<mapsto> h)))))))"

text \<open>
  The statements that open, fill and commit a store transaction, one per source line,
  so that the committed tables can be read after every statement. An exception inside
  a transaction unwinds the stack and drops the transaction. \<open>lockObj\<close> is the
  \<^verbatim>\<open>PathLocks\<close> object whose \<^verbatim>\<open>setDeletion\<close> follows the commit (\<open>None\<close>: a null pointer).
\<close>

record TxnState =
  committed :: Database
  openTxn :: "Transaction option"
  lockObj :: "PathLocks option"

datatype Stmt =
    CreateStoreTransaction
  | RegisterValidPath Path Hash
  | SetReferences Path PathSet
  | Commit
  | SetDeletion bool

definition execStmt ::
  "'fs Externals \<Rightarrow> Globals \<Rightarrow> Stmt \<Rightarrow> TxnState \<Rightarrow> (exn \<times> TxnState) + TxnState" where
  "execStmt X G c s =
     (case c of
        CreateStoreTransaction \<Rightarrow> Inr (s\<lparr>openTxn := Some (committed s)\<rparr>)
      | RegisterValidPath p h \<Rightarrow>
          (case openTxn s of
             None \<Rightarrow> Inl (Abort, s)
           | Some t \<Rightarrow>
               (case registerValidPath X G t p h of
                  Inl e \<Rightarrow> Inl (e, s\<lparr>openTxn := None\<rparr>)
                | Inr t' \<Rightarrow> Inr (s\<lparr>openTxn := Some t'\<rparr>)))
      | SetReferences p refs \<Rightarrow>
          (case openTxn s of
             None \<Rightarrow> Inl (Abort, s)
           | Some t \<Rightarrow>
               (case setReferences t p refs of
                  Inl e \<Rightarrow> Inl (e, s\<lparr>openTxn := None\<rparr>)
                | Inr t' \<Rightarrow> Inr (s\<lparr>openTxn := Some t'\<rparr>)))
      | Commit \<Rightarrow>
          (case openTxn s of
             None \<Rightarrow> Inl (Abort, s)
           | Some t \<Rightarrow> Inr (s\<lparr>committed := t, openTxn := None\<rparr>))
      | SetDeletion b \<Rightarrow>
          (case lockObj s of
             None \<Rightarrow> Inl (Abort, s)
           | Some l \<Rightarrow> Inr (s\<lparr>lockObj := Some (setDeletion b l)\<rparr>)))"

text \<open>
  The second half of \<^verbatim>\<open>computeClosure\<close> (from \<^verbatim>\<open>Transaction txn\<close> to
  \<^verbatim>\<open>outputLocks.setDeletion(true)\<close>) as a list of statements. \<^verbatim>\<open>contentHashes[p]\<close> and
  \<^verbatim>\<open>allReferences[p]\<close> are \<^verbatim>\<open>std::map\<close> lookups, which yield a default-constructed value
  for an absent key.
\<close>

definition registrationCode ::
  "(string \<times> DerivationOutput) list \<Rightarrow> (Path \<rightharpoonup> PathSet) \<Rightarrow> (Path \<rightharpoonup> Hash) \<Rightarrow> Stmt list" where
  "registrationCode outs allReferences contentHashes =
     CreateStoreTransaction
     # concat (map (\<lambda>(n, x).
          [RegisterValidPath (path x)
             (case contentHashes (path x) of None \<Rightarrow> Hash htUnknown [] | Some h \<Rightarrow> h),
           SetReferences (path x)
             (case allReferences (path x) of None \<Rightarrow> {||} | Some r \<Rightarrow> r)]) outs)
     @ [Commit, SetDeletion True]"

definition computeClosure ::
  "'fs Externals \<Rightarrow> Globals \<Rightarrow> DerivationGoal \<Rightarrow> 'fs World \<Rightarrow> (unit, 'fs) dres" where
  "computeClosure X G d W =
     (case foldE (scanOutput X d) (map snd (outputs (drv d))) (fs W, Map.empty, Map.empty) of
        Inl (e, (f, allReferences, contentHashes)) \<Rightarrow> Inl (e, d, W\<lparr>fs := f\<rparr>)
      | Inr (f, allReferences, contentHashes) \<Rightarrow>
          (case foldE (execStmt X G) (registrationCode (outputs (drv d)) allReferences contentHashes)
                  \<lparr>committed = db W, openTxn = None, lockObj = Some (outputLocks d)\<rparr> of
             Inl (e, r) \<Rightarrow>
               Inl (e, d\<lparr>outputLocks := (case lockObj r of None \<Rightarrow> outputLocks d | Some l \<Rightarrow> l)\<rparr>,
                    W\<lparr>fs := f, db := committed r\<rparr>)
           | Inr r \<Rightarrow>
               Inr ((), d\<lparr>outputLocks := (case lockObj r of None \<Rightarrow> outputLocks d | Some l \<Rightarrow> l)\<rparr>,
                    W\<lparr>fs := f, db := committed r\<rparr>)))"

text \<open>
  Modelled from the spec: \<^verbatim>\<open>statusOk\<close> of util.cc is not in the tree; the spec's
  "non-zero exit status" is the failure, so the status is the exit status and zero is
  success.
\<close>

definition statusOk :: "int \<Rightarrow> bool" where
  "statusOk st = (st = 0)"

text \<open>\<^verbatim>\<open>DerivationGoal::buildDone\<close>; \<open>status\<close> is what \<^verbatim>\<open>pid.wait(true)\<close> returns.\<close>

definition buildDone ::
  "'fs Externals \<Rightarrow> Globals \<Rightarrow> int \<Rightarrow> GoalPtr \<Rightarrow> DerivationGoal \<Rightarrow> 'fs World \<Rightarrow> (unit, 'fs) dres" where
  "buildDone X G status this d W =
     (let savedPid = pid d; d1 = d\<lparr>pid := - 1\<rparr>
      in case childTerminated (goals W) savedPid True (worker W) of
           Inl e \<Rightarrow> Inl (e, d1, W)
         | Inr w' \<Rightarrow>
             if \<not> statusOk status
             then (case deleteTmpDir G False d1 (W\<lparr>worker := w'\<rparr>) of
                     (d2, W2) \<Rightarrow>
                       (case amDone G this False W2 of
                          Inl e \<Rightarrow> Inl (e, d2, W2)
                        | Inr W3 \<Rightarrow> Inr ((), d2, W3)))
             else (case deleteTmpDir G True d1 (W\<lparr>worker := w'\<rparr>) of
                     (d2, W2) \<Rightarrow>
                       (case computeClosure X G d2 W2 of
                          Inl (Throw BuildError m, d3, W3) \<Rightarrow>
                            (case amDone G this False W3 of
                               Inl e \<Rightarrow> Inl (e, d3, W3)
                             | Inr W4 \<Rightarrow> Inr ((), d3, W4))
                        | Inl x \<Rightarrow> Inl x
                        | Inr (u, d3, W3) \<Rightarrow>
                            (case amDone G this True W3 of
                               Inl e \<Rightarrow> Inl (e, d3, W3)
                             | Inr W4 \<Rightarrow> Inr ((), d3, W4)))))"

subsection \<open>The substitution goal\<close>

type_synonym ('a, 'fs) sres =
  "(exn \<times> SubstitutionGoal \<times> 'fs World) + ('a \<times> SubstitutionGoal \<times> 'fs World)"

text \<open>The constructors \<^verbatim>\<open>Goal::Goal\<close> and \<^verbatim>\<open>SubstitutionGoal::SubstitutionGoal\<close>.\<close>

definition Goal_init :: "GoalClass \<Rightarrow> Goal" where
  "Goal_init c = \<lparr>waitees = {||}, waiters = {||}, nrFailed = 0, done_flag = False,
                  cls = c, success = True\<rparr>"

definition SubstitutionGoal_init :: "Path \<Rightarrow> SubstitutionGoal" where
  "SubstitutionGoal_init p =
     \<lparr>storePath = p, subs = [], sub = \<lparr>sub_deriver = [], sub_program = [], sub_args = []\<rparr>,
      references = {||}, spid = - 1, outputLock = None, sstate = ssInit\<rparr>"

text \<open>\<^verbatim>\<open>Worker::makeSubstitutionGoal\<close>, that is \<^verbatim>\<open>addGoal<SubstitutionGoal>\<close>.\<close>

definition makeSubstitutionGoal :: "Path \<Rightarrow> 'fs World \<Rightarrow> GoalPtr \<times> 'fs World" where
  "makeSubstitutionGoal p W =
     (case (case substitutionGoals (worker W) p of
              None \<Rightarrow> None
            | Some g \<Rightarrow> if goals W g \<noteq> None then Some g else None) of
        Some g \<Rightarrow> (g, W)
      | None \<Rightarrow>
          let g = nextGoalPtr W
          in (g, W\<lparr>goals := (goals W)(g \<mapsto> Goal_init SubstitutionGoalC),
                   worker := wakeUp g ((worker W)\<lparr>substitutionGoals :=
                                          (substitutionGoals (worker W))(p \<mapsto> g)\<rparr>),
                   substitutionGoalObjs := (substitutionGoalObjs W)(g \<mapsto> SubstitutionGoal_init p),
                   nextGoalPtr := Suc g\<rparr>))"

text \<open>\<^verbatim>\<open>SubstitutionGoal::tryNext\<close>, \<^verbatim>\<open>referencesValid\<close> and \<^verbatim>\<open>init\<close>.\<close>

definition tryNext :: "Globals \<Rightarrow> GoalPtr \<Rightarrow> SubstitutionGoal \<Rightarrow> 'fs World \<Rightarrow> (unit, 'fs) sres" where
  "tryNext G this sg W =
     (case subs sg of
        [] \<Rightarrow>
          (case amDone G this False W of
             Inl e \<Rightarrow> Inl (e, sg, W)
           | Inr W1 \<Rightarrow> Inr ((), sg, W1))
      | x # rest \<Rightarrow>
          let sg1 = sg\<lparr>sub := x, subs := rest, sstate := ssTryToRun\<rparr>
          in (case waitForBuildSlot G this False (worker W) of
                Inl e \<Rightarrow> Inl (e, sg1, W)
              | Inr w' \<Rightarrow> Inr ((), sg1, W\<lparr>worker := w'\<rparr>)))"

definition referencesValid :: "Globals \<Rightarrow> GoalPtr \<Rightarrow> SubstitutionGoal \<Rightarrow> 'fs World \<Rightarrow> (unit, 'fs) sres" where
  "referencesValid G this sg W =
     (case goals W this of
        None \<Rightarrow> Inl (Abort, sg, W)
      | Some t \<Rightarrow>
          if nrFailed t > 0
          then Inl (Throw Error (MsgReferencesNotRealised (storePath sg)), sg, W)
          else if \<not> list_all (isValidPath (db W)) (sorted_list_of_fset (references sg))
          then Inl (Abort, sg, W)
          else tryNext G this sg W)"

definition init :: "Globals \<Rightarrow> GoalPtr \<Rightarrow> SubstitutionGoal \<Rightarrow> 'fs World \<Rightarrow> (unit, 'fs) sres" where
  "init G this sg W =
     (if isValidPath (db W) (storePath sg)
      then (case amDone G this True W of
              Inl e \<Rightarrow> Inl (e, sg, W)
            | Inr W1 \<Rightarrow> Inr ((), sg, W1))
      else
        let sg1 = sg\<lparr>subs := querySubstitutes (db W) (storePath sg)\<rparr>
        in (case queryReferences (db W) (storePath sg1) (references sg1) of
              Inl e \<Rightarrow> Inl (e, sg1, W)
            | Inr refs \<Rightarrow>
                let sg2 = sg1\<lparr>references := refs\<rparr>;
                    W1 = fold (\<lambda>i W'. case makeSubstitutionGoal i W' of
                                         (g, W'') \<Rightarrow> addWaitee this g W'')
                           (sorted_list_of_fset refs) W
                in (case goals W1 this of
                      None \<Rightarrow> Inl (Abort, sg2, W1)
                    | Some t \<Rightarrow>
                        if waitees t = {||} then referencesValid G this sg2 W1
                        else Inr ((), sg2\<lparr>sstate := ssReferencesValid\<rparr>, W1))))"

text \<open>\<^verbatim>\<open>SubstitutionGoal::finished\<close>; the \<^verbatim>\<open>SubstError\<close> of the \<^verbatim>\<open>try\<close> block is caught at once.\<close>

definition finished ::
  "'fs Externals \<Rightarrow> Globals \<Rightarrow> int \<Rightarrow> GoalPtr \<Rightarrow> SubstitutionGoal \<Rightarrow> 'fs World \<Rightarrow> (unit, 'fs) sres" where
  "finished X G status this sg W =
     (let savedPid = spid sg; sg1 = sg\<lparr>spid := - 1\<rparr>
      in case childTerminated (goals W) savedPid True (worker W) of
           Inl e \<Rightarrow> Inl (e, sg1, W)
         | Inr w' \<Rightarrow>
             let W1 = W\<lparr>worker := w'\<rparr>
             in if \<not> statusOk status \<or> \<not> pathExists X (fs W1) (storePath sg1)
                then Inr ((), sg1\<lparr>sstate := ssTryNext\<rparr>, W1\<lparr>worker := wakeUp this (worker W1)\<rparr>)
                else
                  (case canonicalisePathMetaData X (fs W1) (storePath sg1) of
                     Inl e \<Rightarrow> Inl (e, sg1, W1)
                   | Inr f \<Rightarrow>
                       (case hashPath X htSHA256 f (storePath sg1) of
                          Inl e \<Rightarrow> Inl (e, sg1, W1\<lparr>fs := f\<rparr>)
                        | Inr contentHash \<Rightarrow>
                            (case foldE (execStmt X G)
                                    [CreateStoreTransaction,
                                     RegisterValidPath (storePath sg1) contentHash,
                                     Commit,
                                     SetDeletion True]
                                    \<lparr>committed = db W1, openTxn = None, lockObj = outputLock sg1\<rparr> of
                               Inl (e, r) \<Rightarrow>
                                 Inl (e, sg1\<lparr>outputLock := lockObj r\<rparr>, W1\<lparr>fs := f, db := committed r\<rparr>)
                             | Inr r \<Rightarrow>
                                 let sg2 = sg1\<lparr>outputLock := lockObj r\<rparr>;
                                     W2 = W1\<lparr>fs := f, db := committed r\<rparr>
                                 in (case amDone G this True W2 of
                                       Inl e \<Rightarrow> Inl (e, sg2, W2)
                                     | Inr W3 \<Rightarrow> Inr ((), sg2, W3))))))"

section \<open>Predicates and example data used in the statements\<close>






text \<open>
  The statements of \<open>registrationCode\<close> between \<^verbatim>\<open>createStoreTransaction\<close> and
  \<^verbatim>\<open>txn.commit()\<close> (\<open>regBody\<close>) are the calls that work inside the transaction
  (\<open>inTxn\<close>). \<open>refsOf\<close> and \<open>hashOf\<close> are the two \<^verbatim>\<open>std::map\<close> lookups with their
  default values. \<open>registered\<close> says of a database that the outputs \<open>outs\<close> are in it:
  every output path is valid, its entry in the table of references is the reference
  set that \<open>allReferences\<close> holds for it, and, when the output paths are canonical
  (\<^verbatim>\<open>canonPath\<close> leaves them alone), its entry in the table of valid paths is the
  \<^verbatim>\<open>sha256:\<close> hash that \<open>contentHashes\<close> holds for it.
\<close>

definition inTxn :: "Stmt \<Rightarrow> bool" where
  "inTxn c = (case c of RegisterValidPath p h \<Rightarrow> True | SetReferences p r \<Rightarrow> True | _ \<Rightarrow> False)"

definition refsOf :: "(Path \<rightharpoonup> PathSet) \<Rightarrow> Path \<Rightarrow> PathSet" where
  "refsOf allReferences p = (case allReferences p of None \<Rightarrow> {||} | Some r \<Rightarrow> r)"

definition hashOf :: "(Path \<rightharpoonup> Hash) \<Rightarrow> Path \<Rightarrow> Hash" where
  "hashOf contentHashes p = (case contentHashes p of None \<Rightarrow> Hash htUnknown [] | Some h \<Rightarrow> h)"

definition registered ::
  "'fs Externals \<Rightarrow> (string \<times> DerivationOutput) list \<Rightarrow> (Path \<rightharpoonup> PathSet) \<Rightarrow> (Path \<rightharpoonup> Hash)
   \<Rightarrow> Database \<Rightarrow> bool" where
  "registered X outs allReferences contentHashes D =
     ((\<forall>(n, x) \<in> set outs.
          isValidPath D (canonPath X (path x))
          \<and> dbReferences D (path x) = Some (sorted_list_of_fset (refsOf allReferences (path x))))
      \<and> ((\<forall>(n, x) \<in> set outs. canonPath X (path x) = path x) \<longrightarrow>
          (\<forall>(n, x) \<in> set outs.
             dbValidPaths D (path x) = Some (''sha256:'' @ printHash X (hashOf contentHashes (path x))))))"

definition regBody ::
  "(string \<times> DerivationOutput) list \<Rightarrow> (Path \<rightharpoonup> PathSet) \<Rightarrow> (Path \<rightharpoonup> Hash) \<Rightarrow> Stmt list" where
  "regBody outs allReferences contentHashes =
     concat (map (\<lambda>(n, x).
          [RegisterValidPath (path x) (hashOf contentHashes (path x)),
           SetReferences (path x) (refsOf allReferences (path x))]) outs)"

text \<open>Example data for the witnesses.\<close>

definition ex_G :: Globals where
  "ex_G = \<lparr>keepGoing = False, tryFallback = False, keepFailed = False, maxBuildJobs = 1,
           thisSystem = ''i686-linux'', nixStore = ''/nix/store'',
           nixLogDir = ''/nix/var/log/nix''\<rparr>"

definition ex_goal :: "GoalPtr fset \<Rightarrow> GoalPtr fset \<Rightarrow> Goal" where
  "ex_goal ws rs = \<lparr>waitees = ws, waiters = rs, nrFailed = 0, done_flag = False,
                    cls = DerivationGoalC, success = True\<rparr>"

definition ex_state :: State where
  "ex_state = \<lparr>goals = [1 \<mapsto> ex_goal {|2, 3|} {||}, 2 \<mapsto> ex_goal {||} {|1|},
                         3 \<mapsto> ex_goal {||} {|1|}],
               worker = Worker_init\<rparr>"

text \<open>
  A toy instance of the helpers: the file system is the finite set of the paths that
  exist, every file is a regular non-executable file, the hash of a file is its path
  with a prefix, and the reference scan reports the candidates listed in \<open>ex_scan\<close>.
\<close>

definition ex_scan :: "Path \<Rightarrow> Paths \<Rightarrow> Paths" where
  "ex_scan p cands = filter (\<lambda>c. c = ''/nix/store/ccc-dep'') cands"

definition ex_X :: "Path fset Externals" where
  "ex_X = \<lparr>pathExists = (\<lambda>f p. p |\<in>| f),
           deletePath = (\<lambda>f p. Inr (f |-| {|p|})),
           lstat_mode = (\<lambda>f p. if p |\<in>| f then Some 0x8124 else None),
           canonicalisePathMetaData = (\<lambda>f p. Inr f),
           canonPath = (\<lambda>p. p),
           baseNameOf = (\<lambda>p. rev (takeWhile (\<lambda>c. c \<noteq> CHR ''/'') (rev p))),
           parseHashType = (\<lambda>s. if s = ''md5'' then htMD5 else if s = ''sha1'' then htSHA1
                                  else if s = ''sha256'' then htSHA256 else htUnknown),
           parseHash = (\<lambda>ht s. Inr (Hash ht s)),
           printHash = (\<lambda>h. case h of Hash ht s \<Rightarrow> s),
           hashFile = (\<lambda>ht f p. Inr (Hash ht (''h:'' @ p))),
           hashPath = (\<lambda>ht f p. Inr (Hash ht (''h:'' @ p))),
           filterReferences = (\<lambda>f p cands. Inr (ex_scan p cands)),
           derivationFromPath = (\<lambda>f p. Inl (Throw Error (MsgExternal ''no derivation''))),
           computeFSClosure = (\<lambda>dbs p acc. Inr (finsert p acc))\<rparr>"

definition ex_db :: Database where
  "ex_db = \<lparr>dbValidPaths = Map.empty, dbReferences = Map.empty, dbReferers = Map.empty,
            dbSubstitutes = Map.empty, dbDerivers = Map.empty\<rparr>"

definition ex_W :: "Path fset World" where
  "ex_W = \<lparr>goals = goals ex_state, worker = Worker_init,
           fs = {|''/nix/store/bbb-foo''|}, db = ex_db, tmpFiles = Map.empty,
           substitutionGoalObjs = Map.empty, nextGoalPtr = 10\<rparr>"

definition ex_os :: OS where
  "ex_os = \<lparr>os_buildHook = ''/hook'', os_hookTmpDir = ''/tmp/nix-1'', os_hookLogFile = True,
            os_hookFork = 7, os_hookFd = 5, os_hookReply = Line ''postpone'',
            os_buildTmpDir = ''/tmp/nix-2'', os_buildLogFile = True,
            os_buildFork = 8, os_buildFd = 6\<rparr>"

definition ex_drv :: Derivation where
  "ex_drv = \<lparr>outputs = [(''out'', \<lparr>path = ''/nix/store/bbb-foo'', hashAlgo = [], hash = []\<rparr>)],
             inputDrvs = [], inputSrcs = {||}, platform = ''i686-linux'',
             builder = ''/bin/sh'', args = [''-e'', ''builder.sh''],
             env = [''TMPDIR'' \<mapsto> ''/x'', ''name'' \<mapsto> ''foo'']\<rparr>"

definition ex_d :: DerivationGoal where
  "ex_d = \<lparr>drvPath = ''/nix/store/aaa-foo.drv'', drv = ex_drv, outputLocks = PathLocks_init,
           inputPaths = {||}, allPaths = {|''/nix/store/bbb-foo'', ''/nix/store/ccc-dep''|},
           pid = - 1, tmpDir = [], toHook = [], state = gsTryToBuild\<rparr>"

text \<open>
  More example data. \<open>ex_fixed_d h\<close> is the goal of a fixed-output derivation that
  declares the sha256 hash \<open>h\<close>. \<open>ex_src_d\<close> is a goal as its constructor leaves it
  (no input paths, no referenceable paths yet) for a derivation with one input source,
  \<^verbatim>\<open>/nix/store/sss-src\<close>, which is valid in \<open>ex_src_W\<close>; with \<open>ex_src_X\<close> the contents of
  the output mention that source: the scan reports it whenever it is a candidate.
\<close>

definition ex_fixed_d :: "string \<Rightarrow> DerivationGoal" where
  "ex_fixed_d h = ex_d\<lparr>drv := ex_drv\<lparr>outputs :=
       [(''out'', \<lparr>path = ''/nix/store/bbb-foo'', hashAlgo = ''sha256'', hash = h\<rparr>)]\<rparr>\<rparr>"

definition ex_src_X :: "Path fset Externals" where
  "ex_src_X = ex_X\<lparr>filterReferences := (\<lambda>f p cands. Inr (filter (\<lambda>c. c = ''/nix/store/sss-src'') cands))\<rparr>"

definition ex_src_d :: DerivationGoal where
  "ex_src_d = ex_d\<lparr>drv := ex_drv\<lparr>inputSrcs := {|''/nix/store/sss-src''|}\<rparr>,
                    inputPaths := {||}, allPaths := {||}\<rparr>"

definition ex_src_W :: "Path fset World" where
  "ex_src_W = ex_W\<lparr>fs := {|''/nix/store/bbb-foo'', ''/nix/store/sss-src''|},
                    db := ex_db\<lparr>dbValidPaths := [''/nix/store/sss-src'' \<mapsto> ''sha256:h:/nix/store/sss-src'']\<rparr>\<rparr>"

text \<open>
  A substitution goal (at address 4) whose substituter runs as the child 9 in a build
  slot, for a path whose declared reference is \<^verbatim>\<open>/nix/store/ccc-dep\<close>.
\<close>

definition ex_sg :: SubstitutionGoal where
  "ex_sg = \<lparr>storePath = ''/nix/store/bbb-foo'', subs = [],
            sub = \<lparr>sub_deriver = [], sub_program = ''/sub'', sub_args = []\<rparr>,
            references = {|''/nix/store/ccc-dep''|}, spid = 9,
            outputLock = Some (lockPaths {|''/nix/store/bbb-foo''|} PathLocks_init),
            sstate = ssFinished\<rparr>"

definition ex_sub_W :: "Path fset World" where
  "ex_sub_W = ex_W\<lparr>goals := [4 \<mapsto> Goal_init SubstitutionGoalC],
                    worker := childStarted 4 9 5 True Worker_init,
                    db := ex_db\<lparr>dbReferences := [''/nix/store/bbb-foo'' \<mapsto> [''/nix/store/ccc-dep'']]\<rparr>\<rparr>"

section \<open>The scheduler: \<^verbatim>\<open>waiteeDone\<close> and \<^verbatim>\<open>amDone\<close>\<close>











section \<open>The worker: build slots and the build hook\<close>



lemma childTerminated_hook:
  assumes "children w p = Some c" and "\<not> inBuildSlot c"
  shows "\<exists>w'. childTerminated gs p False w = Inr w' \<and> children w' = (children w)(p := None)
     \<and> nrChildren w' = nrChildren w \<and> wantingToBuild w' = wantingToBuild w \<and> awake w' = awake w
     \<and> topGoals w' = topGoals w"
  using assms by (simp add: childTerminated_def Let_def)

lemma deleteTmpDir_frame:
  "deleteTmpDir G force d W = (d', W') \<Longrightarrow>
     worker W' = worker W \<and> goals W' = goals W \<and> db W' = db W \<and> fs W' = fs W
     \<and> pid d' = pid d \<and> drv d' = drv d \<and> drvPath d' = drvPath d \<and> outputLocks d' = outputLocks d
     \<and> allPaths d' = allPaths d \<and> inputPaths d' = inputPaths d \<and> state d' = state d"
  by (auto simp: deleteTmpDir_def split: if_splits)

lemma terminateBuildHook_hook:
  assumes "children (worker W) (pid d) = Some c" and "\<not> inBuildSlot c"
  shows "\<exists>d' W'. terminateBuildHook G d W = Inr ((), d', W')
     \<and> children (worker W') = (children (worker W))(pid d := None)
     \<and> nrChildren (worker W') = nrChildren (worker W)
     \<and> wantingToBuild (worker W') = wantingToBuild (worker W)
     \<and> awake (worker W') = awake (worker W)
     \<and> goals W' = goals W \<and> db W' = db W \<and> fs W' = fs W \<and> state d' = state d"
proof -
  from childTerminated_hook[OF assms, of "goals W"] obtain w' where
    w': "childTerminated (goals W) (pid d) False (worker W) = Inr w'"
        "children w' = (children (worker W))(pid d := None)"
        "nrChildren w' = nrChildren (worker W)" "wantingToBuild w' = wantingToBuild (worker W)"
        "awake w' = awake (worker W)"
    by blast
  obtain d2 W2 where dt: "deleteTmpDir G True (d\<lparr>pid := - 1\<rparr>) (W\<lparr>worker := w'\<rparr>) = (d2, W2)"
    by (cases "deleteTmpDir G True (d\<lparr>pid := - 1\<rparr>) (W\<lparr>worker := w'\<rparr>)") auto
  have "terminateBuildHook G d W = Inr ((), d2, W2)"
    using w'(1) dt by (simp add: terminateBuildHook_def Let_def)
  then show ?thesis using deleteTmpDir_frame[OF dt] w' by simp
qed


lemma tryBuildHook_postpone:
  assumes "os_buildHook os \<noteq> []" "os_hookLogFile os" "os_hookFork os \<noteq> - 1" "os_hookFork os \<noteq> 0"
    and "os_hookReply os = Line ''postpone''"
  shows "\<exists>d' W'. tryBuildHook X G os this d W = Inr (rpPostpone, d', W')
     \<and> children (worker W') = (children (worker W))(os_hookFork os := None)
     \<and> nrChildren (worker W') = nrChildren (worker W)
     \<and> wantingToBuild (worker W') = wantingToBuild (worker W)
     \<and> awake (worker W') = awake (worker W)
     \<and> goals W' = goals W \<and> db W' = db W \<and> fs W' = fs W \<and> state d' = state d"
proof -
  define d2 where "d2 = d\<lparr>tmpDir := os_hookTmpDir os, pid := os_hookFork os\<rparr>"
  define W2 where "W2 = W\<lparr>worker := childStarted this (os_hookFork os) (os_hookFd os) False (worker W)\<rparr>"
  have c: "children (worker W2) (pid d2) = Some \<lparr>goal = this, fdOutput = os_hookFd os, inBuildSlot = False\<rparr>"
    by (simp add: W2_def d2_def childStarted_def Let_def)
  have nb: "\<not> inBuildSlot \<lparr>goal = this, fdOutput = os_hookFd os, inBuildSlot = False\<rparr>" by simp
  from terminateBuildHook_hook[OF c nb, of G] obtain d' W' where
    t: "terminateBuildHook G d2 W2 = Inr ((), d', W')"
       "children (worker W') = (children (worker W2))(pid d2 := None)"
       "nrChildren (worker W') = nrChildren (worker W2)"
       "wantingToBuild (worker W') = wantingToBuild (worker W2)"
       "awake (worker W') = awake (worker W2)"
       "goals W' = goals W2" "db W' = db W2" "fs W' = fs W2" "state d' = state d2"
    by blast
  have run: "tryBuildHook X G os this d W = Inr (rpPostpone, d', W')"
    using assms t(1) by (simp add: tryBuildHook_def Let_def d2_def W2_def)
  have "children (worker W') = (children (worker W))(os_hookFork os := None)"
    using t(2) by (simp add: W2_def d2_def childStarted_def Let_def)
  then show ?thesis using run t by (simp add: W2_def d2_def childStarted_def Let_def)
qed







text \<open>
  Claim C8. Let the build hook be configured and forked, let its first line be
  "postpone", and let the worker have no child other than the hook. Then
  \<^verbatim>\<open>tryToBuild\<close> reaps the hook, finds no running children, and the call
  \<^verbatim>\<open>waitForBuildSlot(this, true)\<close> throws the \<^verbatim>\<open>Error\<close> "waiting for a build slot, yet there
  are no children - maybe the build hook gave an inappropriate `postpone' reply?",
  which \<^verbatim>\<open>tryToBuild\<close> does not catch; the goal has not been added to \<open>wantingToBuild\<close>.
\<close>

theorem C8_postpone:
  assumes "os_buildHook os \<noteq> []" "os_hookLogFile os" "os_hookFork os \<noteq> - 1" "os_hookFork os \<noteq> 0"
    and "os_hookReply os = Line ''postpone''"
    and "dom (children (worker W)) \<subseteq> {os_hookFork os}"
  shows "\<exists>d' W'. tryToBuild X G os this d W = Inl (Throw Error MsgNoChildren, d', W')
     \<and> dom (children (worker W')) = {}
     \<and> waitForBuildSlot G this True (worker W') = Inl (Throw Error MsgNoChildren)
     \<and> wantingToBuild (worker W') = wantingToBuild (worker W)
     \<and> awake (worker W') = awake (worker W)
     \<and> state d' = state d"
proof -
  from tryBuildHook_postpone[OF assms(1-5), where X=X and G=G and this=this and d=d and W=W] obtain d' W' where
    t: "tryBuildHook X G os this d W = Inr (rpPostpone, d', W')"
       "children (worker W') = (children (worker W))(os_hookFork os := None)"
       "wantingToBuild (worker W') = wantingToBuild (worker W)"
       "awake (worker W') = awake (worker W)" "state d' = state d"
    by blast
  have e: "dom (children (worker W')) = {}" using t(2) assms(6) by auto
  have w: "waitForBuildSlot G this True (worker W') = Inl (Throw Error MsgNoChildren)"
    using e by (simp add: waitForBuildSlot_def)
  have "tryToBuild_try X G os this d W = Inl (Throw Error MsgNoChildren, d', W')"
    using t(1) w by (simp add: tryToBuild_try_def)
  then have "tryToBuild X G os this d W = Inl (Throw Error MsgNoChildren, d', W')"
    by (simp add: tryToBuild_def)
  then show ?thesis using e w t by blast
qed

theorem C8_postpone_witness:
  "os_buildHook ex_os \<noteq> [] \<and> os_hookLogFile ex_os \<and> os_hookFork ex_os \<noteq> - 1
   \<and> os_hookFork ex_os \<noteq> 0 \<and> os_hookReply ex_os = Line ''postpone''
   \<and> dom (children (worker ex_W)) \<subseteq> {os_hookFork ex_os}
   \<and> (\<exists>d' W'. tryToBuild ex_X ex_G ex_os 1 ex_d ex_W = Inl (Throw Error MsgNoChildren, d', W')
          \<and> wantingToBuild (worker W') = {||})"
proof -
  have h1: "os_buildHook ex_os \<noteq> []" by (simp add: ex_os_def)
  have h2: "os_hookLogFile ex_os" by (simp add: ex_os_def)
  have h3: "os_hookFork ex_os \<noteq> - 1" by (simp add: ex_os_def)
  have h4: "os_hookFork ex_os \<noteq> 0" by (simp add: ex_os_def)
  have h5: "os_hookReply ex_os = Line ''postpone''" by (simp add: ex_os_def)
  have h6: "dom (children (worker ex_W)) \<subseteq> {os_hookFork ex_os}"
    by (simp add: ex_W_def Worker_init_def)
  have e: "wantingToBuild (worker ex_W) = {||}" by (simp add: ex_W_def Worker_init_def)
  from C8_postpone[OF h1 h2 h3 h4 h5 h6, where X=ex_X and G=ex_G and this=1 and d=ex_d]
  obtain d' W' where
    "tryToBuild ex_X ex_G ex_os 1 ex_d ex_W = Inl (Throw Error MsgNoChildren, d', W')"
    "wantingToBuild (worker W') = wantingToBuild (worker ex_W)"
    by blast
  then show ?thesis using h1 h2 h3 h4 h5 h6 e by auto
qed

section \<open>\<^verbatim>\<open>startBuilder\<close>: the builder's environment and stray outputs\<close>

lemma builderEnv_apply:
  "builderEnv G dr tmp k =
     (if k \<in> {''NIX_BUILD_TOP'', ''TMPDIR'', ''TEMPDIR'', ''TMP'', ''TEMP''} then Some tmp
      else case env dr k of
             Some v \<Rightarrow> Some v
           | None \<Rightarrow> (if k = ''PATH'' then Some ''/path-not-set''
                       else if k = ''HOME'' then Some ''/homeless-shelter''
                       else if k = ''NIX_STORE'' then Some (nixStore G) else None))"
  by (auto simp: builderEnv_def Let_def map_add_def split: option.splits)

text \<open>
  Claim C3, as amended. In the child that \<^verbatim>\<open>startBuilder\<close> forks, the builder is executed
  with an environment \<open>E\<close> in which \<^verbatim>\<open>NIX_BUILD_TOP\<close>, \<^verbatim>\<open>TMPDIR\<close>, \<^verbatim>\<open>TEMPDIR\<close>, \<^verbatim>\<open>TMP\<close> and
  \<^verbatim>\<open>TEMP\<close> are the fresh temporary directory, whatever \<^verbatim>\<open>drv.env\<close> says about them;
  every other key of \<^verbatim>\<open>drv.env\<close> has its value from \<^verbatim>\<open>drv.env\<close>; \<^verbatim>\<open>PATH\<close>, \<^verbatim>\<open>HOME\<close> and
  \<^verbatim>\<open>NIX_STORE\<close> have the defaults "/path-not-set", "/homeless-shelter" and the store
  directory unless \<^verbatim>\<open>drv.env\<close> binds them; and no other variable is set.
\<close>

theorem C3_builder_environment:
  assumes "platform (drv d) = thisSystem G"
    and "deleteUnregisteredOutputs X (db W) (outputs (drv d)) (fs W) = Inr f"
    and "os_buildLogFile os" and "os_buildFork os = 0"
  shows "\<exists>E d' W'. startBuilder X G os this d W =
            Inl (Exec (builder (drv d)) (baseNameOf X (builder (drv d)) # args (drv d)) (Some E), d', W')
    \<and> E ''NIX_BUILD_TOP'' = Some (os_buildTmpDir os)
    \<and> E ''TMPDIR'' = Some (os_buildTmpDir os)
    \<and> E ''TEMPDIR'' = Some (os_buildTmpDir os)
    \<and> E ''TMP'' = Some (os_buildTmpDir os)
    \<and> E ''TEMP'' = Some (os_buildTmpDir os)
    \<and> (\<forall>k v. env (drv d) k = Some v
              \<and> k \<notin> {''NIX_BUILD_TOP'', ''TMPDIR'', ''TEMPDIR'', ''TMP'', ''TEMP''} \<longrightarrow> E k = Some v)
    \<and> (env (drv d) ''PATH'' = None \<longrightarrow> E ''PATH'' = Some ''/path-not-set'')
    \<and> (env (drv d) ''HOME'' = None \<longrightarrow> E ''HOME'' = Some ''/homeless-shelter'')
    \<and> (env (drv d) ''NIX_STORE'' = None \<longrightarrow> E ''NIX_STORE'' = Some (nixStore G))
    \<and> dom E = {''PATH'', ''HOME'', ''NIX_STORE'', ''NIX_BUILD_TOP'', ''TMPDIR'', ''TEMPDIR'', ''TMP'', ''TEMP''}
              \<union> dom (env (drv d))"
proof -
  let ?E = "builderEnv G (drv d) (os_buildTmpDir os)"
  have run: "startBuilder X G os this d W =
            Inl (Exec (builder (drv d)) (baseNameOf X (builder (drv d)) # args (drv d)) (Some ?E),
                 d\<lparr>tmpDir := os_buildTmpDir os, pid := 0\<rparr>, W\<lparr>fs := f\<rparr>)"
    using assms by (simp add: startBuilder_def Let_def)
  have d: "dom ?E = {''PATH'', ''HOME'', ''NIX_STORE'', ''NIX_BUILD_TOP'', ''TMPDIR'', ''TEMPDIR'', ''TMP'', ''TEMP''}
              \<union> dom (env (drv d))"
    by (auto simp: dom_def builderEnv_apply split: option.splits if_splits)
  show ?thesis
    apply (rule exI[where x="?E"])
    apply (rule exI[where x="d\<lparr>tmpDir := os_buildTmpDir os, pid := 0\<rparr>"])
    apply (rule exI[where x="W\<lparr>fs := f\<rparr>"])
    apply (intro conjI)
    apply (rule run)
    apply (simp_all add: builderEnv_apply d)
    done
qed

theorem C3_builder_environment_witness:
  "platform (drv ex_d) = thisSystem ex_G
   \<and> deleteUnregisteredOutputs ex_X (db ex_W) (outputs (drv ex_d)) (fs ex_W) = Inr {||}
   \<and> os_buildLogFile (ex_os\<lparr>os_buildFork := 0\<rparr>)
   \<and> (\<exists>E d' W'. startBuilder ex_X ex_G (ex_os\<lparr>os_buildFork := 0\<rparr>) 1 ex_d ex_W =
          Inl (Exec (builder (drv ex_d)) (baseNameOf ex_X (builder (drv ex_d)) # args (drv ex_d))
                 (Some E), d', W')
        \<and> E ''name'' = Some ''foo'' \<and> E ''TMPDIR'' = Some ''/tmp/nix-2''
        \<and> E ''PATH'' = Some ''/path-not-set'')"
proof -
  have h1: "platform (drv ex_d) = thisSystem ex_G"
    by (simp add: ex_d_def ex_drv_def ex_G_def)
  have h2: "deleteUnregisteredOutputs ex_X (db ex_W) (outputs (drv ex_d)) (fs ex_W) = Inr {||}"
    by (simp add: ex_X_def ex_W_def ex_d_def ex_drv_def ex_db_def isValidPath_def isValidPathTxn_def)
  have h3: "os_buildLogFile (ex_os\<lparr>os_buildFork := 0\<rparr>)" by (simp add: ex_os_def)
  have h4: "os_buildFork (ex_os\<lparr>os_buildFork := 0\<rparr>) = 0" by simp
  have t: "os_buildTmpDir (ex_os\<lparr>os_buildFork := 0\<rparr>) = ''/tmp/nix-2''" by (simp add: ex_os_def)
  have n: "env (drv ex_d) ''name'' = Some ''foo''" "env (drv ex_d) ''PATH'' = None"
    by (simp_all add: ex_d_def ex_drv_def)
  note th = C3_builder_environment[OF h1 h2 h3 h4, of 1]
  then obtain E d' W' where
    r: "startBuilder ex_X ex_G (ex_os\<lparr>os_buildFork := 0\<rparr>) 1 ex_d ex_W =
          Inl (Exec (builder (drv ex_d)) (baseNameOf ex_X (builder (drv ex_d)) # args (drv ex_d))
                 (Some E), d', W')
        \<and> E ''NIX_BUILD_TOP'' = Some (os_buildTmpDir (ex_os\<lparr>os_buildFork := 0\<rparr>))
        \<and> E ''TMPDIR'' = Some (os_buildTmpDir (ex_os\<lparr>os_buildFork := 0\<rparr>))
        \<and> E ''TEMPDIR'' = Some (os_buildTmpDir (ex_os\<lparr>os_buildFork := 0\<rparr>))
        \<and> E ''TMP'' = Some (os_buildTmpDir (ex_os\<lparr>os_buildFork := 0\<rparr>))
        \<and> E ''TEMP'' = Some (os_buildTmpDir (ex_os\<lparr>os_buildFork := 0\<rparr>))
        \<and> (\<forall>k v. env (drv ex_d) k = Some v
              \<and> k \<notin> {''NIX_BUILD_TOP'', ''TMPDIR'', ''TEMPDIR'', ''TMP'', ''TEMP''} \<longrightarrow> E k = Some v)
        \<and> (env (drv ex_d) ''PATH'' = None \<longrightarrow> E ''PATH'' = Some ''/path-not-set'')
        \<and> (env (drv ex_d) ''HOME'' = None \<longrightarrow> E ''HOME'' = Some ''/homeless-shelter'')
        \<and> (env (drv ex_d) ''NIX_STORE'' = None \<longrightarrow> E ''NIX_STORE'' = Some (nixStore ex_G))
        \<and> dom E = {''PATH'', ''HOME'', ''NIX_STORE'', ''NIX_BUILD_TOP'', ''TMPDIR'', ''TEMPDIR'', ''TMP'', ''TEMP''}
              \<union> dom (env (drv ex_d))"
    by (elim exE)
  have r1: "startBuilder ex_X ex_G (ex_os\<lparr>os_buildFork := 0\<rparr>) 1 ex_d ex_W =
          Inl (Exec (builder (drv ex_d)) (baseNameOf ex_X (builder (drv ex_d)) # args (drv ex_d))
                 (Some E), d', W')" using r by (rule conjunct1)
  have r3: "E ''TMPDIR'' = Some (os_buildTmpDir (ex_os\<lparr>os_buildFork := 0\<rparr>))"
    using r by (elim conjE)
  have r7: "\<forall>k v. env (drv ex_d) k = Some v
              \<and> k \<notin> {''NIX_BUILD_TOP'', ''TMPDIR'', ''TEMPDIR'', ''TMP'', ''TEMP''} \<longrightarrow> E k = Some v"
    using r by (elim conjE)
  have r8: "env (drv ex_d) ''PATH'' = None \<longrightarrow> E ''PATH'' = Some ''/path-not-set''"
    using r by (elim conjE)
  have m: "''name'' \<notin> {''NIX_BUILD_TOP'', ''TMPDIR'', ''TEMPDIR'', ''TMP'', ''TEMP''}" by simp
  have a: "E ''name'' = Some ''foo''"
    by (rule r7[THEN spec, THEN spec, THEN mp, OF conjI[OF n(1) m]])
  have b: "E ''TMPDIR'' = Some ''/tmp/nix-2''" using r3 t by simp
  have c: "E ''PATH'' = Some ''/path-not-set''" by (rule r8[THEN mp, OF n(2)])
  show ?thesis
    apply (intro conjI)
       apply (rule h1)
      apply (rule h2)
     apply (rule h3)
    apply (rule exI[where x=E], rule exI[where x=d'], rule exI[where x=W'])
    apply (intro conjI)
       apply (rule r1)
      apply (rule a)
     apply (rule b)
    apply (rule c)
    done
qed

text \<open>
  The claim as stated ("for every key k in drv.env the final environment maps k to
  drv.env[k]") fails for the key \<^verbatim>\<open>TMPDIR\<close>: the derivation binds it to "/x", and the
  builder receives the temporary directory.
\<close>

theorem C3_counterexample:
  "startBuilder ex_X ex_G (ex_os\<lparr>os_buildFork := 0\<rparr>) 1 ex_d ex_W =
     Inl (Exec ''/bin/sh'' [''sh'', ''-e'', ''builder.sh'']
            (Some (builderEnv ex_G ex_drv ''/tmp/nix-2'')),
          ex_d\<lparr>tmpDir := ''/tmp/nix-2'', pid := 0\<rparr>, ex_W\<lparr>fs := {||}\<rparr>)
   \<and> env ex_drv ''TMPDIR'' = Some ''/x''
   \<and> builderEnv ex_G ex_drv ''/tmp/nix-2'' ''TMPDIR'' = Some ''/tmp/nix-2''"
  by (simp add: startBuilder_def builderEnv_apply ex_X_def ex_G_def ex_os_def ex_d_def ex_W_def
      ex_drv_def ex_db_def isValidPath_def isValidPathTxn_def Let_def)

lemma deleteUnregisteredOutputs_Inr:
  assumes del1: "\<forall>f p f'. deletePath X f p = Inr f' \<longrightarrow> \<not> pathExists X f' p"
      and del2: "\<forall>f p f' q. deletePath X f p = Inr f' \<and> pathExists X f' q \<longrightarrow> pathExists X f q"
  shows "deleteUnregisteredOutputs X dbs outs f = Inr f' \<Longrightarrow>
     (\<forall>x \<in> snd ` set outs. \<not> isValidPath dbs (path x) \<and> \<not> pathExists X f' (path x))
     \<and> (\<forall>q. pathExists X f' q \<longrightarrow> pathExists X f q)"
proof (induction outs arbitrary: f)
  case Nil
  then show ?case by simp
next
  case (Cons a outs)
  obtain n x where a: "a = (n, x)" by (cases a) auto
  have nv: "\<not> isValidPath dbs (path x)" using Cons.prems a by (auto split: if_splits)
  show ?case
  proof (cases "pathExists X f (path x)")
    case True
    then obtain f1 where f1: "deletePath X f (path x) = Inr f1"
      "deleteUnregisteredOutputs X dbs outs f1 = Inr f'"
      using Cons.prems a nv by (auto split: sum.splits)
    from Cons.IH[OF f1(2)] have ih:
      "\<forall>x \<in> snd ` set outs. \<not> isValidPath dbs (path x) \<and> \<not> pathExists X f' (path x)"
      "\<forall>q. pathExists X f' q \<longrightarrow> pathExists X f1 q" by auto
    have "\<not> pathExists X f1 (path x)" using del1 f1(1) by blast
    then have nx: "\<not> pathExists X f' (path x)" using ih(2) by blast
    have "\<forall>q. pathExists X f' q \<longrightarrow> pathExists X f q" using ih(2) del2 f1(1) by blast
    then show ?thesis using ih(1) nx nv a by auto
  next
    case False
    then have r: "deleteUnregisteredOutputs X dbs outs f = Inr f'"
      using Cons.prems a nv by simp
    from Cons.IH[OF r] have ih:
      "\<forall>x \<in> snd ` set outs. \<not> isValidPath dbs (path x) \<and> \<not> pathExists X f' (path x)"
      "\<forall>q. pathExists X f' q \<longrightarrow> pathExists X f q" by auto
    have nx: "\<not> pathExists X f' (path x)" using ih(2) False by blast
    show ?thesis using ih nx nv a by auto
  qed
qed

lemma deleteUnregisteredOutputs_valid:
  "\<exists>x \<in> snd ` set outs. isValidPath dbs (path x) \<Longrightarrow>
   \<exists>e f'. deleteUnregisteredOutputs X dbs outs f = Inl (e, f')
      \<and> ((\<exists>x \<in> snd ` set outs. isValidPath dbs (path x) \<and> e = Throw Error (MsgObstructed (path x)))
          \<or> (\<exists>f0 p. deletePath X f0 p = Inl e))"
proof (induction outs arbitrary: f)
  case Nil
  then show ?case by simp
next
  case (Cons a outs)
  obtain n x where a: "a = (n, x)" by (cases a) auto
  show ?case
  proof (cases "isValidPath dbs (path x)")
    case True
    then show ?thesis using a by auto
  next
    case nv: False
    then have rest: "\<exists>x \<in> snd ` set outs. isValidPath dbs (path x)" using Cons.prems a by auto
    show ?thesis
    proof (cases "pathExists X f (path x)")
      case True
      show ?thesis
      proof (cases "deletePath X f (path x)")
        case (Inl e)
        then show ?thesis using a nv True by auto
      next
        case (Inr f1)
        from Cons.IH[OF rest, of f1] show ?thesis using a nv True Inr by auto
      qed
    next
      case False
      from Cons.IH[OF rest, of f] show ?thesis using a nv False by auto
    qed
  qed
qed

text \<open>
  Claim C7. Let \<^verbatim>\<open>deletePath\<close> remove the path it is given and create nothing. If some
  declared output path is registered valid, \<^verbatim>\<open>startBuilder\<close> throws before it forks: no
  child is registered, and the exception is the "obstructed build" \<^verbatim>\<open>Error\<close> for a valid
  output path, unless a check that comes earlier in the function has already thrown
  (the platform test, or \<^verbatim>\<open>deletePath\<close> on an earlier output). And when \<^verbatim>\<open>startBuilder\<close>
  returns, with the builder forked and registered as a child in a build slot, no
  declared output path is valid and none exists on disk any more: every stray one has
  been deleted.
\<close>

theorem C7_startBuilder_outputs:
  assumes del1: "\<forall>f p f'. deletePath X f p = Inr f' \<longrightarrow> \<not> pathExists X f' p"
      and del2: "\<forall>f p f' q. deletePath X f p = Inr f' \<and> pathExists X f' q \<longrightarrow> pathExists X f q"
  shows "((\<exists>x \<in> snd ` set (outputs (drv d)). isValidPath (db W) (path x)) \<longrightarrow>
            (\<exists>e d' W'. startBuilder X G os this d W = Inl (e, d', W')
               \<and> worker W' = worker W \<and> db W' = db W
               \<and> (e = Throw BuildError (MsgPlatform (platform (drv d)) (thisSystem G) (drvPath d))
                  \<or> (\<exists>x \<in> snd ` set (outputs (drv d)).
                        isValidPath (db W) (path x) \<and> e = Throw Error (MsgObstructed (path x)))
                  \<or> (\<exists>f0 p. deletePath X f0 p = Inl e))))
     \<and> (\<forall>r d' W'. startBuilder X G os this d W = Inr (r, d', W') \<longrightarrow>
            children (worker W') (os_buildFork os) =
              Some \<lparr>goal = this, fdOutput = os_buildFd os, inBuildSlot = True\<rparr>
            \<and> (\<forall>x \<in> snd ` set (outputs (drv d)).
                  \<not> isValidPath (db W) (path x) \<and> \<not> pathExists X (fs W') (path x))
            \<and> (\<forall>q. pathExists X (fs W') q \<longrightarrow> pathExists X (fs W) q))"
proof (intro conjI impI allI)
  assume v: "\<exists>x \<in> snd ` set (outputs (drv d)). isValidPath (db W) (path x)"
  show "\<exists>e d' W'. startBuilder X G os this d W = Inl (e, d', W')
               \<and> worker W' = worker W \<and> db W' = db W
               \<and> (e = Throw BuildError (MsgPlatform (platform (drv d)) (thisSystem G) (drvPath d))
                  \<or> (\<exists>x \<in> snd ` set (outputs (drv d)).
                        isValidPath (db W) (path x) \<and> e = Throw Error (MsgObstructed (path x)))
                  \<or> (\<exists>f0 p. deletePath X f0 p = Inl e))"
  proof (cases "platform (drv d) = thisSystem G")
    case False
    then show ?thesis by (simp add: startBuilder_def)
  next
    case True
    from deleteUnregisteredOutputs_valid[OF v, of X "fs W"] obtain e f' where
      e: "deleteUnregisteredOutputs X (db W) (outputs (drv d)) (fs W) = Inl (e, f')"
         "(\<exists>x \<in> snd ` set (outputs (drv d)). isValidPath (db W) (path x) \<and> e = Throw Error (MsgObstructed (path x)))
          \<or> (\<exists>f0 p. deletePath X f0 p = Inl e)"
      by blast
    have "startBuilder X G os this d W = Inl (e, d, W\<lparr>fs := f'\<rparr>)"
      using True e(1) by (simp add: startBuilder_def)
    then show ?thesis using e(2) by auto
  qed
next
  fix r d' W'
  assume h: "startBuilder X G os this d W = Inr (r, d', W')"
  then obtain f' where f': "deleteUnregisteredOutputs X (db W) (outputs (drv d)) (fs W) = Inr f'"
    and w: "W' = (W\<lparr>fs := f'\<rparr>)\<lparr>worker := childStarted this (os_buildFork os) (os_buildFd os) True
                                          (worker (W\<lparr>fs := f'\<rparr>))\<rparr>"
    by (auto simp: startBuilder_def Let_def split: if_splits sum.splits)
  have fsw: "fs W' = f'" using w by simp
  show "children (worker W') (os_buildFork os) =
              Some \<lparr>goal = this, fdOutput = os_buildFd os, inBuildSlot = True\<rparr>"
    using w by (simp add: childStarted_def Let_def)
  from deleteUnregisteredOutputs_Inr[OF del1 del2 f'] fsw
  show "\<forall>x \<in> snd ` set (outputs (drv d)).
                \<not> isValidPath (db W) (path x) \<and> \<not> pathExists X (fs W') (path x)"
    by simp
  from deleteUnregisteredOutputs_Inr[OF del1 del2 f'] fsw
  show "\<And>q. pathExists X (fs W') q \<Longrightarrow> pathExists X (fs W) q"
    by simp
qed

theorem C7_startBuilder_outputs_witness:
  "pathExists ex_X (fs ex_W) ''/nix/store/bbb-foo''
   \<and> (\<exists>d' W'. startBuilder ex_X ex_G ex_os 1 ex_d ex_W = Inr ((), d', W')
          \<and> \<not> pathExists ex_X (fs W') ''/nix/store/bbb-foo'')"
proof -
  have h1: "\<forall>f p f'. deletePath ex_X f p = Inr f' \<longrightarrow> \<not> pathExists ex_X f' p"
    by (auto simp: ex_X_def)
  have h2: "\<forall>f p f' q. deletePath ex_X f p = Inr f' \<and> pathExists ex_X f' q \<longrightarrow> pathExists ex_X f q"
    by (auto simp: ex_X_def)
  have e: "pathExists ex_X (fs ex_W) ''/nix/store/bbb-foo''"
    by (simp add: ex_X_def ex_W_def)
  have o: "snd ` set (outputs (drv ex_d)) = {\<lparr>path = ''/nix/store/bbb-foo'', hashAlgo = [], hash = []\<rparr>}"
    by (simp add: ex_d_def ex_drv_def)
  have run: "startBuilder ex_X ex_G ex_os 1 ex_d ex_W =
      Inr ((), ex_d\<lparr>tmpDir := ''/tmp/nix-2'', pid := 8\<rparr>,
           ex_W\<lparr>fs := {||}, worker := childStarted 1 8 6 True Worker_init\<rparr>)"
    by (simp add: startBuilder_def ex_X_def ex_G_def ex_os_def ex_d_def ex_W_def
        ex_drv_def ex_db_def isValidPath_def isValidPathTxn_def Let_def)
  from C7_startBuilder_outputs[OF h1 h2, of ex_d ex_W ex_G ex_os 1] run o
  have "\<not> pathExists ex_X (fs (ex_W\<lparr>fs := {||}, worker := childStarted 1 8 6 True Worker_init\<rparr>))
            ''/nix/store/bbb-foo''"
    by simp
  then show ?thesis using e run by blast
qed

section \<open>\<^verbatim>\<open>computeClosure\<close>: the scan of the outputs and their registration\<close>

lemma foldE_append:
  "foldE f (xs @ ys) s = (case foldE f xs s of Inl e \<Rightarrow> Inl e | Inr s' \<Rightarrow> foldE f ys s')"
  by (induction xs arbitrary: s) (auto split: sum.splits)

lemma fold_referers_frame1:
  "dbValidPaths (fold (\<lambda>i x. x\<lparr>dbReferers := F i x\<rparr>) xs t) = dbValidPaths t
   \<and> dbReferences (fold (\<lambda>i x. x\<lparr>dbReferers := F i x\<rparr>) xs t) = dbReferences t
   \<and> dbSubstitutes (fold (\<lambda>i x. x\<lparr>dbReferers := F i x\<rparr>) xs t) = dbSubstitutes t
   \<and> dbDerivers (fold (\<lambda>i x. x\<lparr>dbReferers := F i x\<rparr>) xs t) = dbDerivers t"
  by (induction xs arbitrary: t) auto

lemma fold_referers_frame2:
  "dbValidPaths (fold (\<lambda>i x. if P i then x\<lparr>dbReferers := F i x\<rparr> else x) xs t) = dbValidPaths t
   \<and> dbReferences (fold (\<lambda>i x. if P i then x\<lparr>dbReferers := F i x\<rparr> else x) xs t) = dbReferences t
   \<and> dbSubstitutes (fold (\<lambda>i x. if P i then x\<lparr>dbReferers := F i x\<rparr> else x) xs t) = dbSubstitutes t
   \<and> dbDerivers (fold (\<lambda>i x. if P i then x\<lparr>dbReferers := F i x\<rparr> else x) xs t) = dbDerivers t"
  by (induction xs arbitrary: t) auto

lemma setReferences_result:
  assumes "setReferences t p r = Inr t'"
  shows "isRealisablePath t p \<and> dbValidPaths t' = dbValidPaths t
     \<and> dbReferences t' = (dbReferences t)(p \<mapsto> sorted_list_of_fset r)
     \<and> dbSubstitutes t' = dbSubstitutes t \<and> dbDerivers t' = dbDerivers t"
  using assms
  by (auto simp: setReferences_def Let_def fold_referers_frame1 fold_referers_frame2 split: if_splits)

lemma registerValidPath_result:
  assumes "registerValidPath X G t p h = Inr t'"
  shows "isStorePath G (canonPath X p) \<and> (\<exists>b. h = Hash htSHA256 b)
     \<and> t' = t\<lparr>dbValidPaths := (dbValidPaths t)(canonPath X p \<mapsto> ''sha256:'' @ printHash X h)\<rparr>"
  using assms
  by (auto simp: registerValidPath_def setHash_def assertStorePath_def Let_def
      split: if_splits option.splits Hash.splits)

lemma registrationCode_eq:
  "registrationCode outs aR cH = CreateStoreTransaction # regBody outs aR cH @ [Commit, SetDeletion True]"
  by (simp add: registrationCode_def regBody_def hashOf_def refsOf_def)

lemma regBody_inTxn: "\<forall>c \<in> set (regBody outs aR cH). inTxn c"
  by (auto simp: regBody_def inTxn_def)

lemma regBody_Cons:
  "regBody ((n, x) # outs) aR cH =
     RegisterValidPath (path x) (hashOf cH (path x)) # SetReferences (path x) (refsOf aR (path x))
     # regBody outs aR cH"
  by (simp add: regBody_def)

lemma execStmt_Create:
  "execStmt X G CreateStoreTransaction s = Inr (s\<lparr>openTxn := Some (committed s)\<rparr>)"
  by (simp add: execStmt_def)

lemma execStmt_Register:
  "openTxn s = Some t \<Longrightarrow>
   execStmt X G (RegisterValidPath p h) s =
     (case registerValidPath X G t p h of
        Inl e \<Rightarrow> Inl (e, s\<lparr>openTxn := None\<rparr>)
      | Inr t' \<Rightarrow> Inr (s\<lparr>openTxn := Some t'\<rparr>))"
  by (simp add: execStmt_def)

lemma execStmt_SetReferences:
  "openTxn s = Some t \<Longrightarrow>
   execStmt X G (SetReferences p r) s =
     (case setReferences t p r of
        Inl e \<Rightarrow> Inl (e, s\<lparr>openTxn := None\<rparr>)
      | Inr t' \<Rightarrow> Inr (s\<lparr>openTxn := Some t'\<rparr>))"
  by (simp add: execStmt_def)

lemma execStmt_Commit:
  "openTxn s = Some t \<Longrightarrow> execStmt X G Commit s = Inr (s\<lparr>committed := t, openTxn := None\<rparr>)"
  by (simp add: execStmt_def)

lemma execStmt_SetDeletion:
  "lockObj s = Some l \<Longrightarrow> execStmt X G (SetDeletion b) s = Inr (s\<lparr>lockObj := Some (setDeletion b l)\<rparr>)"
  by (simp add: execStmt_def)

lemma execStmt_inTxn:
  assumes "inTxn c" and "openTxn s = Some t"
  shows "case execStmt X G c s of
           Inl (e, s') \<Rightarrow> committed s' = committed s \<and> lockObj s' = lockObj s
         | Inr s' \<Rightarrow> committed s' = committed s \<and> lockObj s' = lockObj s \<and> openTxn s' \<noteq> None"
  using assms by (cases c) (auto simp: inTxn_def execStmt_def split: sum.splits)

lemma body_frame:
  assumes "\<forall>c \<in> set cs. inTxn c" and "openTxn s = Some t"
  shows "case foldE (execStmt X G) cs s of
           Inl (e, s') \<Rightarrow> committed s' = committed s \<and> lockObj s' = lockObj s
         | Inr s' \<Rightarrow> committed s' = committed s \<and> lockObj s' = lockObj s \<and> openTxn s' \<noteq> None"
  using assms
proof (induction cs arbitrary: s t)
  case Nil
  then show ?case by simp
next
  case (Cons c cs)
  have c: "inTxn c" using Cons.prems by simp
  show ?case
  proof (cases "execStmt X G c s")
    case (Inl a)
    then show ?thesis using execStmt_inTxn[OF c Cons.prems(2), of X G] by (simp split: prod.splits)
  next
    case (Inr s1)
    with execStmt_inTxn[OF c Cons.prems(2), of X G]
    have f: "committed s1 = committed s" "lockObj s1 = lockObj s" "openTxn s1 \<noteq> None" by auto
    then obtain t1 where t1: "openTxn s1 = Some t1" by auto
    have "\<forall>c \<in> set cs. inTxn c" using Cons.prems by simp
    from Cons.IH[OF this t1] show ?thesis using Inr f by (auto split: sum.splits)
  qed
qed

lemma body_registers:
  assumes "foldE (execStmt X G) (regBody todo aR cH) s = Inr s'" and "openTxn s = Some t"
    and "C \<longrightarrow> (\<forall>(n, x) \<in> S \<union> set todo. canonPath X (path x) = path x)"
    and "\<forall>(n, x) \<in> S.
           isValidPath t (canonPath X (path x))
           \<and> dbReferences t (path x) = Some (sorted_list_of_fset (refsOf aR (path x)))
           \<and> (C \<longrightarrow> dbValidPaths t (path x) = Some (''sha256:'' @ printHash X (hashOf cH (path x))))"
  shows "\<exists>t'. openTxn s' = Some t' \<and>
          (\<forall>(n, x) \<in> S \<union> set todo.
             isValidPath t' (canonPath X (path x))
             \<and> dbReferences t' (path x) = Some (sorted_list_of_fset (refsOf aR (path x)))
             \<and> (C \<longrightarrow> dbValidPaths t' (path x) = Some (''sha256:'' @ printHash X (hashOf cH (path x)))))"
  using assms
proof (induction todo arbitrary: s t S)
  case Nil
  then show ?case by (simp add: regBody_def)
next
  case (Cons a todo)
  obtain n x where a: "a = (n, x)" by (cases a)
  from Cons.prems(1) obtain t1 where
    r1: "registerValidPath X G t (path x) (hashOf cH (path x)) = Inr t1"
    by (auto simp: a regBody_Cons execStmt_Register[OF Cons.prems(2)] split: sum.splits)
  define s1 where "s1 = s\<lparr>openTxn := Some t1\<rparr>"
  have o1: "openTxn s1 = Some t1" by (simp add: s1_def)
  have run1: "foldE (execStmt X G) (SetReferences (path x) (refsOf aR (path x)) # regBody todo aR cH) s1
               = Inr s'"
    using Cons.prems(1) r1 by (simp add: a regBody_Cons execStmt_Register[OF Cons.prems(2)] s1_def)
  from run1 obtain t2 where
    r2: "setReferences t1 (path x) (refsOf aR (path x)) = Inr t2"
    by (auto simp: execStmt_SetReferences[OF o1] split: sum.splits)
  define s2 where "s2 = s1\<lparr>openTxn := Some t2\<rparr>"
  have run: "foldE (execStmt X G) (regBody todo aR cH) s2 = Inr s'"
    using run1 r2 by (simp add: execStmt_SetReferences[OF o1] s2_def)
  have o2: "openTxn s2 = Some t2" by (simp add: s2_def)
  from registerValidPath_result[OF r1]
  have t1: "t1 = t\<lparr>dbValidPaths := (dbValidPaths t)(canonPath X (path x) \<mapsto>
                      ''sha256:'' @ printHash X (hashOf cH (path x)))\<rparr>" by blast
  from setReferences_result[OF r2]
  have t2: "dbValidPaths t2 = dbValidPaths t1"
    "dbReferences t2 = (dbReferences t1)(path x \<mapsto> sorted_list_of_fset (refsOf aR (path x)))"
    by blast+
  have c': "C \<longrightarrow> (\<forall>(n, x) \<in> insert (n, x) S \<union> set todo. canonPath X (path x) = path x)"
    using Cons.prems(3) by (auto simp: a)
  have inv: "\<forall>(m, y) \<in> insert (n, x) S.
           isValidPath t2 (canonPath X (path y))
           \<and> dbReferences t2 (path y) = Some (sorted_list_of_fset (refsOf aR (path y)))
           \<and> (C \<longrightarrow> dbValidPaths t2 (path y) = Some (''sha256:'' @ printHash X (hashOf cH (path y))))"
  proof (intro ballI, clarify)
    fix m y assume my: "(m, y) \<in> insert (n, x) S"
    show "isValidPath t2 (canonPath X (path y))
           \<and> dbReferences t2 (path y) = Some (sorted_list_of_fset (refsOf aR (path y)))
           \<and> (C \<longrightarrow> dbValidPaths t2 (path y) = Some (''sha256:'' @ printHash X (hashOf cH (path y))))"
    proof (cases "(m, y) = (n, x)")
      case True
      have "C \<longrightarrow> canonPath X (path x) = path x" using Cons.prems(3) by (auto simp: a)
      then show ?thesis using True by (auto simp: t1 t2 isValidPath_def isValidPathTxn_def)
    next
      case False
      then have inS: "(m, y) \<in> S" using my by blast
      with Cons.prems(4) have old: "isValidPath t (canonPath X (path y))"
        "dbReferences t (path y) = Some (sorted_list_of_fset (refsOf aR (path y)))"
        "C \<longrightarrow> dbValidPaths t (path y) = Some (''sha256:'' @ printHash X (hashOf cH (path y)))"
        by auto
      have cy: "C \<longrightarrow> canonPath X (path y) = path y \<and> canonPath X (path x) = path x"
        using Cons.prems(3) inS by (auto simp: a)
      show ?thesis using old cy by (auto simp: t1 t2 isValidPath_def isValidPathTxn_def)
    qed
  qed
  have eq: "insert (n, x) S \<union> set todo = S \<union> set (a # todo)" by (auto simp: a)
  from Cons.IH[OF run o2 c' inv] show ?case unfolding eq .
qed

lemma body_registered:
  assumes "foldE (execStmt X G) (regBody outs aR cH) s = Inr s'" and "openTxn s = Some t"
  shows "\<exists>t'. openTxn s' = Some t' \<and> registered X outs aR cH t'"
proof -
  define C where "C = (\<forall>(n, x) \<in> set outs. canonPath X (path x) = path x)"
  have c: "C \<longrightarrow> (\<forall>(n, x) \<in> {} \<union> set outs. canonPath X (path x) = path x)" by (simp add: C_def)
  from body_registers[OF assms c] obtain t' where
    t': "openTxn s' = Some t'"
     "\<forall>(n, x)\<in>{} \<union> set outs.
        isValidPath t' (canonPath X (path x)) \<and>
        dbReferences t' (path x) = Some (sorted_list_of_fset (refsOf aR (path x))) \<and>
        (C \<longrightarrow> dbValidPaths t' (path x) = Some (''sha256:'' @ printHash X (hashOf cH (path x))))"
    by auto
  have "registered X outs aR cH t'"
    unfolding registered_def C_def[symmetric] using t'(2) by auto
  then show ?thesis using t'(1) by blast
qed

lemma registration_prefix:
  fixes X :: "'fs Externals"
  shows "case foldE (execStmt X G) (take k (registrationCode outs aR cH))
                \<lparr>committed = D, openTxn = None, lockObj = Some l\<rparr> of
           Inl (e, s) \<Rightarrow> committed s = D \<and> lockObj s = Some l
         | Inr s \<Rightarrow>
             if k + 2 \<le> length (registrationCode outs aR cH)
             then committed s = D \<and> lockObj s = Some l
             else registered X outs aR cH (committed s)
                  \<and> lockObj s = Some (if k < length (registrationCode outs aR cH) then l
                                      else setDeletion True l)"
proof (cases k)
  case 0
  then show ?thesis by (simp add: registrationCode_eq)
next
  case (Suc j)
  define code where "code = registrationCode outs aR cH"
  define body where "body = regBody outs aR cH"
  define s1 :: TxnState where "s1 = \<lparr>committed = D, openTxn = Some D, lockObj = Some l\<rparr>"
  define tl2 where "tl2 = take (j - length body) [Commit, SetDeletion True]"
  have len: "length code = length body + 3" by (simp add: code_def registrationCode_eq body_def)
  have tk: "take k code = CreateStoreTransaction # take j body @ tl2"
    by (simp add: Suc code_def registrationCode_eq body_def tl2_def)
  have o1: "openTxn s1 = Some D" by (simp add: s1_def)
  have run0: "foldE (execStmt X G) (take k code) \<lparr>committed = D, openTxn = None, lockObj = Some l\<rparr>
      = (case foldE (execStmt X G) (take j body) s1 of
           Inl e \<Rightarrow> Inl e | Inr s' \<Rightarrow> foldE (execStmt X G) tl2 s')"
    by (simp add: tk execStmt_Create foldE_append s1_def)
  have tx: "\<forall>c \<in> set (take j body). inTxn c"
    using regBody_inTxn[of outs aR cH] by (auto simp: body_def dest: in_set_takeD)
  note fr = body_frame[OF tx o1, of X G]
  have "case foldE (execStmt X G) (take k code) \<lparr>committed = D, openTxn = None, lockObj = Some l\<rparr> of
           Inl (e, s) \<Rightarrow> committed s = D \<and> lockObj s = Some l
         | Inr s \<Rightarrow>
             if k + 2 \<le> length code
             then committed s = D \<and> lockObj s = Some l
             else registered X outs aR cH (committed s)
                  \<and> lockObj s = Some (if k < length code then l else setDeletion True l)"
  proof (cases "foldE (execStmt X G) (take j body) s1")
    case (Inl a)
    then show ?thesis using fr run0 by (auto simp: s1_def split: prod.splits)
  next
    case (Inr s')
    with fr have f: "committed s' = D" "lockObj s' = Some l" "openTxn s' \<noteq> None"
      by (auto simp: s1_def)
    have run1: "foldE (execStmt X G) (take k code) \<lparr>committed = D, openTxn = None, lockObj = Some l\<rparr>
        = foldE (execStmt X G) tl2 s'"
      using run0 Inr by simp
    show ?thesis
    proof (cases "j \<le> length body")
      case True
      then have "tl2 = []" by (simp add: tl2_def)
      then show ?thesis using run1 f True Suc len by simp
    next
      case False
      then have tj: "take j body = body" by simp
      from Inr have "foldE (execStmt X G) (regBody outs aR cH) s1 = Inr s'"
        by (simp add: tj body_def[symmetric])
      from body_registered[OF this o1] obtain t' where
        t': "openTxn s' = Some t'" "registered X outs aR cH t'" by blast
      show ?thesis
      proof (cases "j = Suc (length body)")
        case True
        then have "tl2 = [Commit]" by (simp add: tl2_def)
        then show ?thesis using run1 f t' True Suc len by (simp add: execStmt_Commit[OF t'(1)])
      next
        case F2: False
        define m where "m = j - length body - 2"
        have m: "j - length body = Suc (Suc m)" using False F2 unfolding m_def by arith
        then have "tl2 = [Commit, SetDeletion True]" by (simp add: tl2_def)
        moreover have "lockObj (s'\<lparr>committed := t', openTxn := None\<rparr>) = Some l" using f by simp
        ultimately show ?thesis using run1 f t' m Suc len
          by (simp add: execStmt_Commit[OF t'(1)] execStmt_SetDeletion[where l=l])
      qed
    qed
  qed
  then show ?thesis unfolding code_def .
qed

lemma registration_run:
  fixes X :: "'fs Externals"
  shows "case foldE (execStmt X G) (registrationCode outs aR cH)
                \<lparr>committed = D, openTxn = None, lockObj = Some l\<rparr> of
           Inl (e, s) \<Rightarrow> committed s = D \<and> lockObj s = Some l
         | Inr s \<Rightarrow> registered X outs aR cH (committed s) \<and> lockObj s = Some (setDeletion True l)"
  using registration_prefix[where X=X and G=G and k="length (registrationCode outs aR cH)"
      and outs=outs and aR=aR and cH=cH and D=D and l=l]
  by (auto split: sum.splits)

lemma computeClosure_failure:
  assumes "computeClosure X G d W = Inl (e, d', W')"
  shows "db W' = db W \<and> outputLocks d' = outputLocks d"
proof (cases "foldE (scanOutput X d) (map snd (outputs (drv d))) (fs W, Map.empty, Map.empty)")
  case (Inl a)
  then show ?thesis using assms by (auto simp: computeClosure_def split: prod.splits)
next
  case (Inr a)
  obtain f aR cH where a: "a = (f, aR, cH)" by (cases a)
  from registration_run[where X=X and G=G and outs="outputs (drv d)" and aR=aR and cH=cH
      and D="db W" and l="outputLocks d"]
  show ?thesis using assms Inr a by (auto simp: computeClosure_def split: sum.splits prod.splits)
qed

lemma computeClosure_success:
  assumes "computeClosure X G d W = Inr (u, d', W')"
  shows "\<exists>f aR cH. foldE (scanOutput X d) (map snd (outputs (drv d))) (fs W, Map.empty, Map.empty)
                       = Inr (f, aR, cH)
           \<and> registered X (outputs (drv d)) aR cH (db W') \<and> fs W' = f
           \<and> outputLocks d' = setDeletion True (outputLocks d)"
proof (cases "foldE (scanOutput X d) (map snd (outputs (drv d))) (fs W, Map.empty, Map.empty)")
  case (Inl a)
  then show ?thesis using assms by (auto simp: computeClosure_def split: prod.splits)
next
  case (Inr a)
  obtain f aR cH where a: "a = (f, aR, cH)" by (cases a)
  from registration_run[where X=X and G=G and outs="outputs (drv d)" and aR=aR and cH=cH
      and D="db W" and l="outputLocks d"]
  show ?thesis using assms Inr a by (auto simp: computeClosure_def split: sum.splits prod.splits)
qed

lemma sorted_list_of_fset_single: "sorted_list_of_fset {|x|} = [x]"
  by (simp add: sorted_list_of_fset.rep_eq)

lemma ex_ffilter:
  "ffilter (\<lambda>c. c = ''/nix/store/ccc-dep'') {|''/nix/store/bbb-foo'', ''/nix/store/ccc-dep''|}
     = {|''/nix/store/ccc-dep''|}"
  by auto

lemma ex_scan_run:
  "foldE (scanOutput ex_X ex_d) (map snd (outputs (drv ex_d))) (fs ex_W, Map.empty, Map.empty)
     = Inr ({|''/nix/store/bbb-foo''|},
            [''/nix/store/bbb-foo'' \<mapsto> {|''/nix/store/ccc-dep''|}],
            [''/nix/store/bbb-foo'' \<mapsto> Hash htSHA256 ''h:/nix/store/bbb-foo''])"
  by (simp add: scanOutput_def checkFixedOutput_def ex_X_def ex_d_def ex_W_def ex_drv_def ex_scan_def ex_ffilter)

text \<open>
  Claim C1. \<^verbatim>\<open>computeClosure\<close> registers the outputs by the statements of
  \<open>registrationCode\<close>, started on the committed tables \<open>db W\<close> with no transaction open.
  Whatever the two maps of the scan hold, and wherever the run stops (after \<open>k\<close>
  statements, as a crash does, or at a statement that throws, which drops the
  transaction): as long as \<^verbatim>\<open>txn.commit()\<close> has not run, the committed tables are still
  \<open>db W\<close>, so no output of the derivation has become valid through this run, and the
  output locks are as they were; once it has run, every output is registered, with
  its content hash and its scanned reference set, and the locks are marked for
  deletion by the last statement only, after the commit. Hence a \<^verbatim>\<open>computeClosure\<close> that
  returns has registered every output with the results of the scan and has marked the
  locks, and a \<^verbatim>\<open>computeClosure\<close> that throws has left the tables and the locks alone.
\<close>

theorem C1_atomic_registration:
  "(\<forall>aR cH k.
      case foldE (execStmt X G) (take k (registrationCode (outputs (drv d)) aR cH))
             \<lparr>committed = db W, openTxn = None, lockObj = Some (outputLocks d)\<rparr> of
        Inl (e, s) \<Rightarrow> committed s = db W \<and> lockObj s = Some (outputLocks d)
      | Inr s \<Rightarrow>
          if k + 2 \<le> length (registrationCode (outputs (drv d)) aR cH)
          then committed s = db W \<and> lockObj s = Some (outputLocks d)
          else registered X (outputs (drv d)) aR cH (committed s)
               \<and> lockObj s = Some (if k < length (registrationCode (outputs (drv d)) aR cH)
                                   then outputLocks d else setDeletion True (outputLocks d)))
   \<and> (\<forall>u d' W'. computeClosure X G d W = Inr (u, d', W') \<longrightarrow>
         (\<exists>f aR cH. foldE (scanOutput X d) (map snd (outputs (drv d))) (fs W, Map.empty, Map.empty)
                       = Inr (f, aR, cH)
            \<and> registered X (outputs (drv d)) aR cH (db W')
            \<and> outputLocks d' = setDeletion True (outputLocks d)))
   \<and> (\<forall>e d' W'. computeClosure X G d W = Inl (e, d', W') \<longrightarrow>
         db W' = db W \<and> outputLocks d' = outputLocks d)"
proof (intro conjI allI impI)
  fix aR cH k
  show "case foldE (execStmt X G) (take k (registrationCode (outputs (drv d)) aR cH))
             \<lparr>committed = db W, openTxn = None, lockObj = Some (outputLocks d)\<rparr> of
        Inl (e, s) \<Rightarrow> committed s = db W \<and> lockObj s = Some (outputLocks d)
      | Inr s \<Rightarrow>
          if k + 2 \<le> length (registrationCode (outputs (drv d)) aR cH)
          then committed s = db W \<and> lockObj s = Some (outputLocks d)
          else registered X (outputs (drv d)) aR cH (committed s)
               \<and> lockObj s = Some (if k < length (registrationCode (outputs (drv d)) aR cH)
                                   then outputLocks d else setDeletion True (outputLocks d))"
    by (rule registration_prefix)
next
  fix u d' W'
  assume "computeClosure X G d W = Inr (u, d', W')"
  from computeClosure_success[OF this]
  show "\<exists>f aR cH. foldE (scanOutput X d) (map snd (outputs (drv d))) (fs W, Map.empty, Map.empty)
                       = Inr (f, aR, cH)
            \<and> registered X (outputs (drv d)) aR cH (db W')
            \<and> outputLocks d' = setDeletion True (outputLocks d)"
    by blast
next
  fix e d' W'
  assume "computeClosure X G d W = Inl (e, d', W')"
  from computeClosure_failure[OF this]
  show "db W' = db W" "outputLocks d' = outputLocks d" by simp_all
qed

theorem C1_atomic_registration_witness:
  "(\<exists>d' W'. computeClosure ex_X ex_G ex_d ex_W = Inr ((), d', W')
       \<and> dbValidPaths (db W') ''/nix/store/bbb-foo'' = Some ''sha256:h:/nix/store/bbb-foo''
       \<and> dbReferences (db W') ''/nix/store/bbb-foo'' = Some [''/nix/store/ccc-dep'']
       \<and> outputLocks d' = setDeletion True (outputLocks ex_d))
   \<and> (\<exists>e d' W'. computeClosure ex_X ex_G ex_d (ex_W\<lparr>fs := {||}\<rparr>) = Inl (e, d', W')
          \<and> db W' = ex_db)"
proof -
  have ok: "\<exists>d' W'. computeClosure ex_X ex_G ex_d ex_W = Inr ((), d', W')"
    unfolding computeClosure_def ex_scan_run
    by (simp add: registrationCode_def execStmt_def
        registerValidPath_def setHash_def assertStorePath_def isStorePath_def isInStore_def
        setReferences_def isRealisablePath_def isValidPathTxn_def Let_def
        ex_X_def ex_G_def ex_d_def ex_drv_def)
  then obtain d' W' where run: "computeClosure ex_X ex_G ex_d ex_W = Inr ((), d', W')" by blast
  from C1_atomic_registration[where X=ex_X and G=ex_G and d=ex_d and W=ex_W] run ex_scan_run
  have r: "registered ex_X (outputs (drv ex_d))
             [''/nix/store/bbb-foo'' \<mapsto> {|''/nix/store/ccc-dep''|}]
             [''/nix/store/bbb-foo'' \<mapsto> Hash htSHA256 ''h:/nix/store/bbb-foo''] (db W')"
    and l: "outputLocks d' = setDeletion True (outputLocks ex_d)"
    by auto
  have v: "dbValidPaths (db W') ''/nix/store/bbb-foo'' = Some ''sha256:h:/nix/store/bbb-foo''"
    and f: "dbReferences (db W') ''/nix/store/bbb-foo'' = Some [''/nix/store/ccc-dep'']"
    using r by (simp_all add: registered_def ex_d_def ex_drv_def ex_X_def refsOf_def hashOf_def
        sorted_list_of_fset_single)
  have "\<exists>e d2 W2. computeClosure ex_X ex_G ex_d (ex_W\<lparr>fs := {||}\<rparr>) = Inl (e, d2, W2)"
    by (simp add: computeClosure_def scanOutput_def ex_X_def ex_d_def ex_drv_def ex_W_def)
  then obtain e d2 W2 where
    bad: "computeClosure ex_X ex_G ex_d (ex_W\<lparr>fs := {||}\<rparr>) = Inl (e, d2, W2)" by blast
  from C1_atomic_registration[where X=ex_X and G=ex_G and d=ex_d and W="ex_W\<lparr>fs := {||}\<rparr>"] bad
  have "db W2 = db (ex_W\<lparr>fs := {||}\<rparr>)" by blast
  then have b: "db W2 = ex_db" by (simp add: ex_W_def)
  show ?thesis using run v f l bad b by blast
qed

lemma checkFixedOutput_None:
  assumes "checkFixedOutput X f x = None" and "hash x \<noteq> []"
  shows "parseHashType X (hashAlgo x) \<noteq> htUnknown
     \<and> (\<exists>h m. parseHash X (parseHashType X (hashAlgo x)) (hash x) = Inr h
            \<and> hashFile X (parseHashType X (hashAlgo x)) f (path x) = Inr h
            \<and> lstat_mode X f (path x) = Some m \<and> S_ISREG m \<and> m AND S_IXUSR = 0)"
  using assms
  by (auto simp: checkFixedOutput_def Let_def split: if_splits sum.splits option.splits)

lemma scanOutput_Inr:
  assumes "scanOutput X d x (f, aR, cH) = Inr (f', aR', cH')"
  shows "pathExists X f (path x) \<and> checkFixedOutput X f x = None
     \<and> canonicalisePathMetaData X f (path x) = Inr f'
     \<and> (\<exists>refs h. (if pathExists X f' (path x @ ''/nix-support/no-scan'') then refs = {||}
                   else (\<exists>l. filterReferences X f' (path x) (sorted_list_of_fset (allPaths d)) = Inr l
                           \<and> refs = fset_of_list l))
           \<and> hashPath X htSHA256 f' (path x) = Inr h
           \<and> aR' = aR(path x \<mapsto> refs) \<and> cH' = cH(path x \<mapsto> h))"
  using assms
  by (auto simp: scanOutput_def split: if_splits sum.splits option.splits)

lemma scan_frame:
  assumes "foldE (scanOutput X d) (map snd outs) (f, aR, cH) = Inr (f', aR', cH')"
    and "p \<notin> (path \<circ> snd) ` set outs"
  shows "aR' p = aR p \<and> cH' p = cH p"
  using assms
proof (induction outs arbitrary: f aR cH)
  case Nil
  then show ?case by simp
next
  case (Cons a outs)
  from Cons.prems(1) obtain st where st: "scanOutput X d (snd a) (f, aR, cH) = Inr st"
    and rest: "foldE (scanOutput X d) (map snd outs) st = Inr (f', aR', cH')"
    by (auto split: sum.splits)
  obtain f1 aR1 cH1 where s1: "st = (f1, aR1, cH1)" by (cases st)
  from scanOutput_Inr[OF st[unfolded s1]] obtain refs h where
    u: "aR1 = aR(path (snd a) \<mapsto> refs)" "cH1 = cH(path (snd a) \<mapsto> h)" by blast
  have np: "p \<noteq> path (snd a)" "p \<notin> (path \<circ> snd) ` set outs" using Cons.prems(2) by auto
  from Cons.IH[OF rest[unfolded s1] np(2)] show ?case using u np(1) by simp
qed

lemma scan_split:
  assumes "foldE (scanOutput X d) (map snd (pre @ (n, x) # post)) st0 = Inr stF"
  shows "\<exists>st1 st2. foldE (scanOutput X d) (map snd pre) st0 = Inr st1
           \<and> scanOutput X d x st1 = Inr st2
           \<and> foldE (scanOutput X d) (map snd post) st2 = Inr stF"
  using assms by (auto simp: foldE_append split: sum.splits)

lemma ex_fixed_scan:
  "foldE (scanOutput ex_X (ex_fixed_d ''h:/nix/store/bbb-foo''))
      (map snd (outputs (drv (ex_fixed_d ''h:/nix/store/bbb-foo'')))) (fs ex_W, Map.empty, Map.empty)
     = Inr ({|''/nix/store/bbb-foo''|},
            [''/nix/store/bbb-foo'' \<mapsto> {|''/nix/store/ccc-dep''|}],
            [''/nix/store/bbb-foo'' \<mapsto> Hash htSHA256 ''h:/nix/store/bbb-foo''])"
  by (simp add: scanOutput_def checkFixedOutput_def ex_X_def ex_fixed_d_def ex_d_def ex_W_def
      ex_drv_def ex_scan_def ex_ffilter S_ISREG_def S_IXUSR_def)

text \<open>
  Claim C4. If \<^verbatim>\<open>computeClosure\<close> returns, every output whose \<open>hash\<close> field is not empty
  has passed the check at its turn of the first loop: in the file system \<open>f\<close> that the
  earlier outputs have left (\<open>fs W\<close> itself for the first output), the path exists,
  \<open>hashAlgo\<close> names a hash type, the declared hash parses to some \<open>h\<close>, \<^verbatim>\<open>hashFile\<close> under
  that type gives the same \<open>h\<close>, and \<^verbatim>\<open>lstat\<close> reports a regular file without the
  execute bit of the owner. When the two hashes differ, \<^verbatim>\<open>computeClosure\<close> throws the
  \<^verbatim>\<open>Error\<close> that carries the path, the algorithm, the declared hash and the actual hash.
  Every exception of \<^verbatim>\<open>computeClosure\<close> leaves the database as it was, so no output has
  been registered. And \<^verbatim>\<open>buildDone\<close>, which catches \<^verbatim>\<open>BuildError\<close> only, passes an \<^verbatim>\<open>Error\<close>
  of \<^verbatim>\<open>computeClosure\<close> on to its caller: the build fails with it.
\<close>

theorem C4_fixed_output:
  "(\<forall>u d' W' pre n x post.
       computeClosure X G d W = Inr (u, d', W') \<and> outputs (drv d) = pre @ (n, x) # post
       \<and> hash x \<noteq> [] \<longrightarrow>
       (\<exists>f aR cH h m.
           foldE (scanOutput X d) (map snd pre) (fs W, Map.empty, Map.empty) = Inr (f, aR, cH)
         \<and> pathExists X f (path x)
         \<and> parseHashType X (hashAlgo x) \<noteq> htUnknown
         \<and> parseHash X (parseHashType X (hashAlgo x)) (hash x) = Inr h
         \<and> hashFile X (parseHashType X (hashAlgo x)) f (path x) = Inr h
         \<and> lstat_mode X f (path x) = Some m \<and> S_ISREG m \<and> m AND S_IXUSR = 0))
   \<and> (\<forall>pre n x post f aR cH h h2.
         outputs (drv d) = pre @ (n, x) # post \<and> hash x \<noteq> []
       \<and> foldE (scanOutput X d) (map snd pre) (fs W, Map.empty, Map.empty) = Inr (f, aR, cH)
       \<and> pathExists X f (path x) \<and> parseHashType X (hashAlgo x) \<noteq> htUnknown
       \<and> parseHash X (parseHashType X (hashAlgo x)) (hash x) = Inr h
       \<and> hashFile X (parseHashType X (hashAlgo x)) f (path x) = Inr h2 \<and> h \<noteq> h2 \<longrightarrow>
         computeClosure X G d W =
           Inl (Throw Error (MsgHashMismatch (path x) (hashAlgo x) (printHash X h) (printHash X h2)),
                d, W\<lparr>fs := f\<rparr>))
   \<and> (\<forall>e d' W'. computeClosure X G d W = Inl (e, d', W') \<longrightarrow> db W' = db W)
   \<and> (\<forall>status this d0 W0 w' m d' W'.
         childTerminated (goals W0) (pid d0) True (worker W0) = Inr w' \<and> statusOk status
       \<and> deleteTmpDir G True (d0\<lparr>pid := - 1\<rparr>) (W0\<lparr>worker := w'\<rparr>) = (d, W)
       \<and> computeClosure X G d W = Inl (Throw Error m, d', W') \<longrightarrow>
         buildDone X G status this d0 W0 = Inl (Throw Error m, d', W'))"
proof (intro conjI allI impI)
  fix u d' W' pre n x post
  assume a: "computeClosure X G d W = Inr (u, d', W') \<and> outputs (drv d) = pre @ (n, x) # post
       \<and> hash x \<noteq> []"
  from computeClosure_success[of X G d W u d' W'] a obtain fF aRF cHF where
    sc: "foldE (scanOutput X d) (map snd (pre @ (n, x) # post)) (fs W, Map.empty, Map.empty)
           = Inr (fF, aRF, cHF)"
    by auto
  from scan_split[OF sc] obtain st1 st2 where
    s1: "foldE (scanOutput X d) (map snd pre) (fs W, Map.empty, Map.empty) = Inr st1"
    and s2: "scanOutput X d x st1 = Inr st2" by blast
  obtain f aR cH where st1: "st1 = (f, aR, cH)" by (cases st1)
  obtain f2 aR2 cH2 where st2: "st2 = (f2, aR2, cH2)" by (cases st2)
  from scanOutput_Inr[OF s2[unfolded st1 st2]]
  have pe: "pathExists X f (path x)" and cf: "checkFixedOutput X f x = None" by blast+
  from checkFixedOutput_None[OF cf] a obtain h m where
    "parseHashType X (hashAlgo x) \<noteq> htUnknown"
    "parseHash X (parseHashType X (hashAlgo x)) (hash x) = Inr h"
    "hashFile X (parseHashType X (hashAlgo x)) f (path x) = Inr h"
    "lstat_mode X f (path x) = Some m" "S_ISREG m" "m AND S_IXUSR = 0"
    by blast
  then show "\<exists>f aR cH h m.
           foldE (scanOutput X d) (map snd pre) (fs W, Map.empty, Map.empty) = Inr (f, aR, cH)
         \<and> pathExists X f (path x)
         \<and> parseHashType X (hashAlgo x) \<noteq> htUnknown
         \<and> parseHash X (parseHashType X (hashAlgo x)) (hash x) = Inr h
         \<and> hashFile X (parseHashType X (hashAlgo x)) f (path x) = Inr h
         \<and> lstat_mode X f (path x) = Some m \<and> S_ISREG m \<and> m AND S_IXUSR = 0"
    using s1 st1 pe by blast
next
  fix pre n x post f aR cH h h2
  assume a: "outputs (drv d) = pre @ (n, x) # post \<and> hash x \<noteq> []
       \<and> foldE (scanOutput X d) (map snd pre) (fs W, Map.empty, Map.empty) = Inr (f, aR, cH)
       \<and> pathExists X f (path x) \<and> parseHashType X (hashAlgo x) \<noteq> htUnknown
       \<and> parseHash X (parseHashType X (hashAlgo x)) (hash x) = Inr h
       \<and> hashFile X (parseHashType X (hashAlgo x)) f (path x) = Inr h2 \<and> h \<noteq> h2"
  have cf: "checkFixedOutput X f x =
      Some (Throw Error (MsgHashMismatch (path x) (hashAlgo x) (printHash X h) (printHash X h2)))"
    using a by (simp add: checkFixedOutput_def)
  have so: "scanOutput X d x (f, aR, cH) =
      Inl (Throw Error (MsgHashMismatch (path x) (hashAlgo x) (printHash X h) (printHash X h2)),
           (f, aR, cH))"
    using a cf by (simp add: scanOutput_def)
  have "foldE (scanOutput X d) (map snd (outputs (drv d))) (fs W, Map.empty, Map.empty) =
      Inl (Throw Error (MsgHashMismatch (path x) (hashAlgo x) (printHash X h) (printHash X h2)),
           (f, aR, cH))"
    using a so by (simp add: foldE_append)
  then show "computeClosure X G d W =
           Inl (Throw Error (MsgHashMismatch (path x) (hashAlgo x) (printHash X h) (printHash X h2)),
                d, W\<lparr>fs := f\<rparr>)"
    by (simp add: computeClosure_def)
next
  fix e d' W'
  assume "computeClosure X G d W = Inl (e, d', W')"
  from computeClosure_failure[OF this] show "db W' = db W" by simp
next
  fix status this d0 W0 w' m d' W'
  assume a: "childTerminated (goals W0) (pid d0) True (worker W0) = Inr w' \<and> statusOk status
       \<and> deleteTmpDir G True (d0\<lparr>pid := - 1\<rparr>) (W0\<lparr>worker := w'\<rparr>) = (d, W)
       \<and> computeClosure X G d W = Inl (Throw Error m, d', W')"
  then show "buildDone X G status this d0 W0 = Inl (Throw Error m, d', W')"
    by (simp add: buildDone_def Let_def)
qed

theorem C4_fixed_output_witness:
  "(\<exists>d' W' h m. computeClosure ex_X ex_G (ex_fixed_d ''h:/nix/store/bbb-foo'') ex_W = Inr ((), d', W')
        \<and> parseHash ex_X htSHA256 ''h:/nix/store/bbb-foo'' = Inr h
        \<and> hashFile ex_X htSHA256 (fs ex_W) ''/nix/store/bbb-foo'' = Inr h
        \<and> lstat_mode ex_X (fs ex_W) ''/nix/store/bbb-foo'' = Some m \<and> S_ISREG m \<and> m AND S_IXUSR = 0)
   \<and> computeClosure ex_X ex_G (ex_fixed_d ''beef'') ex_W =
        Inl (Throw Error (MsgHashMismatch ''/nix/store/bbb-foo'' ''sha256'' ''beef''
                            ''h:/nix/store/bbb-foo''),
             ex_fixed_d ''beef'', ex_W\<lparr>fs := fs ex_W\<rparr>)"
proof -
  define x1 where "x1 = \<lparr>path = ''/nix/store/bbb-foo'', hashAlgo = ''sha256'', hash = ''h:/nix/store/bbb-foo''\<rparr>"
  define x2 where "x2 = \<lparr>path = ''/nix/store/bbb-foo'', hashAlgo = ''sha256'', hash = ''beef''\<rparr>"
  have ok: "\<exists>d' W'. computeClosure ex_X ex_G (ex_fixed_d ''h:/nix/store/bbb-foo'') ex_W = Inr ((), d', W')"
    unfolding computeClosure_def ex_fixed_scan
    by (simp add: registrationCode_def execStmt_def
        registerValidPath_def setHash_def assertStorePath_def isStorePath_def isInStore_def
        setReferences_def isRealisablePath_def isValidPathTxn_def Let_def
        ex_X_def ex_G_def ex_fixed_d_def ex_d_def ex_drv_def)
  then obtain d' W' where
    run: "computeClosure ex_X ex_G (ex_fixed_d ''h:/nix/store/bbb-foo'') ex_W = Inr ((), d', W')"
    by blast
  have o1: "outputs (drv (ex_fixed_d ''h:/nix/store/bbb-foo'')) = [] @ (''out'', x1) # []"
    by (simp add: ex_fixed_d_def x1_def)
  have n1: "hash x1 \<noteq> []" by (simp add: x1_def)
  note T1 = C4_fixed_output[where X=ex_X and G=ex_G and d="ex_fixed_d ''h:/nix/store/bbb-foo''"
      and W=ex_W, THEN conjunct1, THEN spec, THEN spec, THEN spec, THEN spec, THEN spec, THEN spec,
      THEN spec, THEN mp, OF conjI[OF run conjI[OF o1 n1]]]
  from T1 obtain f aR cH h m where
    t: "foldE (scanOutput ex_X (ex_fixed_d ''h:/nix/store/bbb-foo'')) (map snd ([] :: (string \<times> DerivationOutput) list))
           (fs ex_W, Map.empty, Map.empty) = Inr (f, aR, cH)"
       "parseHash ex_X (parseHashType ex_X (hashAlgo x1)) (hash x1) = Inr h"
       "hashFile ex_X (parseHashType ex_X (hashAlgo x1)) f (path x1) = Inr h"
       "lstat_mode ex_X f (path x1) = Some m" "S_ISREG m" "m AND S_IXUSR = 0"
    by blast
  have f: "f = fs ex_W" using t(1) by simp
  have pt: "parseHashType ex_X ''sha256'' = htSHA256" by (simp add: ex_X_def)
  have good: "parseHash ex_X htSHA256 ''h:/nix/store/bbb-foo'' = Inr h"
       "hashFile ex_X htSHA256 (fs ex_W) ''/nix/store/bbb-foo'' = Inr h"
       "lstat_mode ex_X (fs ex_W) ''/nix/store/bbb-foo'' = Some m"
    using t(2,3,4) f pt by (simp_all add: x1_def)
  have o2: "outputs (drv (ex_fixed_d ''beef'')) = [] @ (''out'', x2) # []"
    by (simp add: ex_fixed_d_def x2_def)
  have n2: "hash x2 \<noteq> []" by (simp add: x2_def)
  have s2: "foldE (scanOutput ex_X (ex_fixed_d ''beef'')) (map snd ([] :: (string \<times> DerivationOutput) list)) (fs ex_W, Map.empty, Map.empty)
       = Inr (fs ex_W, Map.empty, Map.empty)" by simp
  have p2: "pathExists ex_X (fs ex_W) (path x2)" by (simp add: ex_X_def ex_W_def x2_def)
  have k2: "parseHashType ex_X (hashAlgo x2) \<noteq> htUnknown" by (simp add: ex_X_def x2_def)
  have h2: "parseHash ex_X (parseHashType ex_X (hashAlgo x2)) (hash x2) = Inr (Hash htSHA256 ''beef'')"
    by (simp add: ex_X_def x2_def)
  have g2: "hashFile ex_X (parseHashType ex_X (hashAlgo x2)) (fs ex_W) (path x2)
       = Inr (Hash htSHA256 ''h:/nix/store/bbb-foo'')"
    by (simp add: ex_X_def x2_def)
  have d2: "Hash htSHA256 ''beef'' \<noteq> Hash htSHA256 ''h:/nix/store/bbb-foo''" by simp
  note T2 = C4_fixed_output[where X=ex_X and G=ex_G and d="ex_fixed_d ''beef''"
      and W=ex_W, THEN conjunct2, THEN conjunct1, THEN spec, THEN spec, THEN spec, THEN spec,
      THEN spec, THEN spec, THEN spec, THEN spec, THEN spec, THEN mp,
      OF conjI[OF o2 conjI[OF n2 conjI[OF s2 conjI[OF p2 conjI[OF k2 conjI[OF h2 conjI[OF g2 d2]]]]]]]]
  have bad: "computeClosure ex_X ex_G (ex_fixed_d ''beef'') ex_W =
        Inl (Throw Error (MsgHashMismatch ''/nix/store/bbb-foo'' ''sha256'' ''beef''
                            ''h:/nix/store/bbb-foo''),
             ex_fixed_d ''beef'', ex_W\<lparr>fs := fs ex_W\<rparr>)"
    using T2 by (simp add: x2_def ex_X_def)
  show ?thesis
    apply (rule conjI)
     apply (rule exI[where x=d'], rule exI[where x=W'], rule exI[where x=h], rule exI[where x=m])
     apply (intro conjI)
          apply (rule run)
         apply (rule good(1))
        apply (rule good(2))
       apply (rule good(3))
      apply (rule t(5))
     apply (rule t(6))
    apply (rule bad)
    done
qed

text \<open>
  What \<^verbatim>\<open>computeClosure\<close> registers as the references of an output, in terms of the
  field \<open>allPaths\<close>. Let the output be the last one with its path, and let \<open>f1\<close> be the
  file system after \<^verbatim>\<open>canonicalisePathMetaData\<close> at its turn. If
  \<^verbatim>\<open>nix-support/no-scan\<close> exists below the output in \<open>f1\<close>, the registered reference list
  is empty, whatever \<^verbatim>\<open>filterReferences\<close> would report; otherwise it is the set of the
  paths that \<^verbatim>\<open>filterReferences\<close> reports for the candidates \<open>allPaths\<close>, in order.
\<close>

lemma computeClosure_references:
  assumes run: "computeClosure X G d W = Inr (u, d', W')"
    and dec: "outputs (drv d) = pre @ (n, x) # post"
    and last: "path x \<notin> (path \<circ> snd) ` set post"
  shows "\<exists>f aR cH f1.
           foldE (scanOutput X d) (map snd pre) (fs W, Map.empty, Map.empty) = Inr (f, aR, cH)
         \<and> canonicalisePathMetaData X f (path x) = Inr f1
         \<and> (if pathExists X f1 (path x @ ''/nix-support/no-scan'')
            then dbReferences (db W') (path x) = Some []
            else (\<exists>l. filterReferences X f1 (path x) (sorted_list_of_fset (allPaths d)) = Inr l
                    \<and> dbReferences (db W') (path x) = Some (sorted_list_of_fset (fset_of_list l))))"
proof -
  from computeClosure_success[OF run] dec obtain fF aRF cHF where
    sc: "foldE (scanOutput X d) (map snd (pre @ (n, x) # post)) (fs W, Map.empty, Map.empty)
           = Inr (fF, aRF, cHF)"
    and reg: "registered X (outputs (drv d)) aRF cHF (db W')"
    by auto
  from scan_split[OF sc] obtain st1 st2 where
    s1: "foldE (scanOutput X d) (map snd pre) (fs W, Map.empty, Map.empty) = Inr st1"
    and s2: "scanOutput X d x st1 = Inr st2"
    and s3: "foldE (scanOutput X d) (map snd post) st2 = Inr (fF, aRF, cHF)" by blast
  obtain f aR cH where st1: "st1 = (f, aR, cH)" by (cases st1)
  obtain f1 aR2 cH2 where st2: "st2 = (f1, aR2, cH2)" by (cases st2)
  from scanOutput_Inr[OF s2[unfolded st1 st2]] obtain refs where
    cn: "canonicalisePathMetaData X f (path x) = Inr f1"
    and rf: "if pathExists X f1 (path x @ ''/nix-support/no-scan'') then refs = {||}
             else (\<exists>l. filterReferences X f1 (path x) (sorted_list_of_fset (allPaths d)) = Inr l
                     \<and> refs = fset_of_list l)"
    and a2: "aR2 = aR(path x \<mapsto> refs)"
    by blast
  from scan_frame[OF s3[unfolded st2] last] a2 have "aRF (path x) = Some refs" by simp
  moreover have "(n, x) \<in> set (outputs (drv d))" using dec by simp
  ultimately have "dbReferences (db W') (path x) = Some (sorted_list_of_fset refs)"
    using reg by (auto simp: registered_def refsOf_def)
  then have "if pathExists X f1 (path x @ ''/nix-support/no-scan'')
            then dbReferences (db W') (path x) = Some []
            else (\<exists>l. filterReferences X f1 (path x) (sorted_list_of_fset (allPaths d)) = Inr l
                    \<and> dbReferences (db W') (path x) = Some (sorted_list_of_fset (fset_of_list l)))"
    using rf by (auto split: if_splits simp: sorted_list_of_fset.rep_eq)
  then show ?thesis using s1 st1 cn by blast
qed

text \<open>
  Claim C9. The candidates of the scan are the field \<open>allPaths\<close>, which the class
  declares as the "referenceable paths (i.e., input and output paths)".
  \<^verbatim>\<open>prepareBuild\<close> fills it with the output paths and then with \<open>inputPaths\<close>, at a
  moment when \<open>inputPaths\<close> holds the closures of the outputs of the input derivations
  only: the closures of the input sources are added to \<open>inputPaths\<close> afterwards and never
  reach \<open>allPaths\<close>. The example is a derivation with one output and one input source
  whose path occurs in the output (the scan reports the source when it is given as a
  candidate) and no \<^verbatim>\<open>nix-support/no-scan\<close>: \<^verbatim>\<open>prepareBuild\<close> returns with the source
  among the input paths and absent from \<open>allPaths\<close>, and \<^verbatim>\<open>computeClosure\<close> then registers
  the output with an empty reference list.
\<close>

theorem C9_input_sources_not_candidates:
  "\<exists>d1 d' W'. prepareBuild ex_src_X ex_src_d ex_src_W = Inr (True, d1)
      \<and> ''/nix/store/sss-src'' |\<in>| inputSrcs (drv d1)
      \<and> ''/nix/store/sss-src'' |\<in>| inputPaths d1
      \<and> ''/nix/store/sss-src'' |\<notin>| allPaths d1
      \<and> filterReferences ex_src_X (fs ex_src_W) ''/nix/store/bbb-foo''
           [''/nix/store/bbb-foo'', ''/nix/store/sss-src''] = Inr [''/nix/store/sss-src'']
      \<and> \<not> pathExists ex_src_X (fs ex_src_W) ''/nix/store/bbb-foo/nix-support/no-scan''
      \<and> computeClosure ex_src_X ex_G d1 ex_src_W = Inr ((), d', W')
      \<and> dbReferences (db W') ''/nix/store/bbb-foo'' = Some []"
proof -
  define d1 where "d1 = ex_src_d\<lparr>outputLocks := lockPaths {|''/nix/store/bbb-foo''|} PathLocks_init,
                                 allPaths := {|''/nix/store/bbb-foo''|},
                                 inputPaths := {|''/nix/store/sss-src''|}\<rparr>"
  have p: "prepareBuild ex_src_X ex_src_d ex_src_W = Inr (True, d1)"
    by (simp add: prepareBuild_def Let_def outputPaths_def checkPathValidity_def isValidPath_def
        isValidPathTxn_def ex_src_X_def ex_src_d_def ex_src_W_def ex_X_def ex_d_def ex_drv_def
        ex_W_def ex_db_def d1_def sorted_list_of_fset_single fcard_fempty)
  have sc: "foldE (scanOutput ex_src_X d1) (map snd (outputs (drv d1))) (fs ex_src_W, Map.empty, Map.empty)
     = Inr ({|''/nix/store/bbb-foo'', ''/nix/store/sss-src''|},
            [''/nix/store/bbb-foo'' \<mapsto> {||}],
            [''/nix/store/bbb-foo'' \<mapsto> Hash htSHA256 ''h:/nix/store/bbb-foo''])"
    by (simp add: scanOutput_def checkFixedOutput_def ex_src_X_def ex_X_def d1_def ex_src_d_def
        ex_d_def ex_src_W_def ex_W_def ex_drv_def sorted_list_of_fset_single)
  have ok: "\<exists>d' W'. computeClosure ex_src_X ex_G d1 ex_src_W = Inr ((), d', W')
              \<and> dbReferences (db W') ''/nix/store/bbb-foo'' = Some []"
    unfolding computeClosure_def sc
    by (simp add: registrationCode_def execStmt_def
        registerValidPath_def setHash_def assertStorePath_def isStorePath_def isInStore_def
        setReferences_def isRealisablePath_def isValidPathTxn_def Let_def queryStrings_def
        ex_src_X_def ex_X_def ex_G_def d1_def ex_src_d_def ex_d_def ex_drv_def ex_src_W_def
        ex_W_def ex_db_def sorted_list_of_fset.rep_eq)
  then obtain d' W' where run: "computeClosure ex_src_X ex_G d1 ex_src_W = Inr ((), d', W')"
    and rf: "dbReferences (db W') ''/nix/store/bbb-foo'' = Some []" by blast
  have a: "''/nix/store/sss-src'' |\<in>| inputSrcs (drv d1)"
    by (simp add: d1_def ex_src_d_def)
  have b: "''/nix/store/sss-src'' |\<in>| inputPaths d1" by (simp add: d1_def)
  have c: "''/nix/store/sss-src'' |\<notin>| allPaths d1" by (simp add: d1_def)
  have f: "filterReferences ex_src_X (fs ex_src_W) ''/nix/store/bbb-foo''
           [''/nix/store/bbb-foo'', ''/nix/store/sss-src''] = Inr [''/nix/store/sss-src'']"
    by (simp add: ex_src_X_def)
  have ns: "\<not> pathExists ex_src_X (fs ex_src_W) ''/nix/store/bbb-foo/nix-support/no-scan''"
    by (simp add: ex_src_X_def ex_X_def ex_src_W_def)
  show ?thesis
    apply (rule exI[where x=d1], rule exI[where x=d'], rule exI[where x=W'])
    apply (intro conjI)
           apply (rule p)
          apply (rule a)
         apply (rule b)
        apply (rule c)
       apply (rule f)
      apply (rule ns)
     apply (rule run)
    apply (rule rf)
    done
qed

section \<open>The substitution goal: \<^verbatim>\<open>init\<close> and \<^verbatim>\<open>finished\<close>\<close>

lemma waiteeDone_world:
  fixes W :: "'fs World"
  assumes "waiteeDone G h g ok W = Inr W'"
  shows "db W' = db W \<and> fs W' = fs W"
  using assms
  by (auto simp: waiteeDone_def Goal_waiteeDone_def PseudoGoal_waiteeDone_def Let_def
      split: option.splits if_splits GoalClass.splits)

lemma notify_world:
  fixes W :: "'fs World"
  assumes "foldE (\<lambda>h s'. if goals s' h \<noteq> None then waiteeDone G h g ok s' else Inr s') xs W = Inr W'"
  shows "db W' = db W \<and> fs W' = fs W"
  using assms
proof (induction xs arbitrary: W)
  case Nil
  then show ?case by simp
next
  case (Cons a xs)
  show ?case
  proof (cases "goals W a \<noteq> None")
    case True
    with Cons.prems obtain W1 where w1: "waiteeDone G a g ok W = Inr W1"
      and r: "foldE (\<lambda>h s'. if goals s' h \<noteq> None then waiteeDone G h g ok s' else Inr s') xs W1 = Inr W'"
      by (auto split: sum.splits)
    from Cons.IH[OF r] waiteeDone_world[OF w1] show ?thesis by simp
  next
    case False
    with Cons.prems have
      "foldE (\<lambda>h s'. if goals s' h \<noteq> None then waiteeDone G h g ok s' else Inr s') xs W = Inr W'"
      by simp
    from Cons.IH[OF this] show ?thesis .
  qed
qed

lemma amDone_world:
  fixes W :: "'fs World"
  assumes "amDone G g ok W = Inr W'"
  shows "db W' = db W \<and> fs W' = fs W"
proof (cases "goals W g")
  case None
  then show ?thesis using assms by (simp add: amDone_def)
next
  case (Some t)
  show ?thesis
  proof (cases "foldE (\<lambda>h s'. if goals s' h \<noteq> None then waiteeDone G h g ok s' else Inr s')
          (sorted_list_of_fset (waiters t))
          (W\<lparr>goals := updGoal g (\<lambda>x. x\<lparr>done_flag := True\<rparr>) (goals W)\<rparr>)")
    case (Inl e)
    then show ?thesis using assms Some by (simp add: amDone_def Let_def split: if_splits)
  next
    case (Inr W2)
    from notify_world[OF Inr] have "db W2 = db W \<and> fs W2 = fs W" by simp
    moreover have "W' = W2\<lparr>goals := updGoal g (\<lambda>x. x\<lparr>waiters := {||}\<rparr>) (goals W2),
                     worker := removeGoal g (worker W2)\<rparr>"
      using assms Some Inr by (simp add: amDone_def Let_def split: if_splits)
    ultimately show ?thesis by simp
  qed
qed

lemma substitute_registration:
  assumes "foldE (execStmt X G)
             [CreateStoreTransaction, RegisterValidPath p h, Commit, SetDeletion True]
             \<lparr>committed = D, openTxn = None, lockObj = L\<rparr> = Inr r"
  shows "\<exists>l. L = Some l \<and> lockObj r = Some (setDeletion True l)
           \<and> committed r = D\<lparr>dbValidPaths := (dbValidPaths D)(canonPath X p \<mapsto>
                                  ''sha256:'' @ printHash X h)\<rparr>"
proof -
  define s1 :: TxnState where "s1 = \<lparr>committed = D, openTxn = Some D, lockObj = L\<rparr>"
  have o1: "openTxn s1 = Some D" by (simp add: s1_def)
  have r1: "foldE (execStmt X G) [RegisterValidPath p h, Commit, SetDeletion True] s1 = Inr r"
    using assms by (simp add: execStmt_Create s1_def)
  then obtain t where t: "registerValidPath X G D p h = Inr t"
    by (auto simp: execStmt_Register[OF o1] split: sum.splits)
  define s2 where "s2 = s1\<lparr>openTxn := Some t\<rparr>"
  have o2: "openTxn s2 = Some t" by (simp add: s2_def)
  have r2: "foldE (execStmt X G) [Commit, SetDeletion True] s2 = Inr r"
    using r1 t by (simp add: execStmt_Register[OF o1] s2_def)
  define s3 where "s3 = s2\<lparr>committed := t, openTxn := None\<rparr>"
  have r3: "execStmt X G (SetDeletion True) s3 = Inr r"
    using r2 by (simp add: execStmt_Commit[OF o2] s3_def split: sum.splits)
  have l3: "lockObj s3 = L" by (simp add: s3_def s2_def s1_def)
  from r3 l3 obtain l where l: "L = Some l" "r = s3\<lparr>lockObj := Some (setDeletion True l)\<rparr>"
    by (auto simp: execStmt_def split: option.splits)
  from registerValidPath_result[OF t]
  have "t = D\<lparr>dbValidPaths := (dbValidPaths D)(canonPath X p \<mapsto> ''sha256:'' @ printHash X h)\<rparr>"
    by blast
  then show ?thesis using l by (simp add: s3_def)
qed

lemma substitute_prefix:
  "case foldE (execStmt X G)
          (take k [CreateStoreTransaction, RegisterValidPath p h, Commit, SetDeletion True])
          \<lparr>committed = D, openTxn = None, lockObj = Some l\<rparr> of
     Inl (e, s) \<Rightarrow> committed s = D \<and> lockObj s = Some l
   | Inr s \<Rightarrow>
       if k < 3 then committed s = D \<and> lockObj s = Some l
       else committed s = D\<lparr>dbValidPaths := (dbValidPaths D)(canonPath X p \<mapsto>
                                 ''sha256:'' @ printHash X h)\<rparr>"
proof -
  define s1 :: TxnState where "s1 = \<lparr>committed = D, openTxn = Some D, lockObj = Some l\<rparr>"
  have f1: "openTxn s1 = Some D" "committed s1 = D" "lockObj s1 = Some l" by (simp_all add: s1_def)
  have e1: "execStmt X G CreateStoreTransaction \<lparr>committed = D, openTxn = None, lockObj = Some l\<rparr> = Inr s1"
    by (simp add: execStmt_Create s1_def)
  note e2 = execStmt_Register[OF f1(1), of X G p h]
  consider "k = 0" | "k = 1" | "k = 2" | "k = 3" | "4 \<le> k" by arith
  then show ?thesis
  proof cases
    case 1
    then show ?thesis by simp
  next
    case 2
    then show ?thesis by (simp add: e1 f1)
  next
    case 3
    then have tk: "take k [CreateStoreTransaction, RegisterValidPath p h, Commit, SetDeletion True]
                     = [CreateStoreTransaction, RegisterValidPath p h]"
      by (simp add: numeral_2_eq_2)
    show ?thesis unfolding tk using 3
      by (cases "registerValidPath X G D p h") (simp_all add: e1 e2 f1)
  next
    case 4
    then have tk: "take k [CreateStoreTransaction, RegisterValidPath p h, Commit, SetDeletion True]
                     = [CreateStoreTransaction, RegisterValidPath p h, Commit]"
      by (simp add: numeral_3_eq_3)
    show ?thesis
    proof (cases "registerValidPath X G D p h")
      case (Inl e)
      then show ?thesis unfolding tk using 4 by (simp add: e1 e2 f1)
    next
      case (Inr t)
      have o2: "openTxn (s1\<lparr>openTxn := Some t\<rparr>) = Some t" by simp
      from registerValidPath_result[OF Inr]
      have t: "t = D\<lparr>dbValidPaths := (dbValidPaths D)(canonPath X p \<mapsto> ''sha256:'' @ printHash X h)\<rparr>"
        by blast
      have "foldE (execStmt X G) [CreateStoreTransaction, RegisterValidPath p h, Commit]
              \<lparr>committed = D, openTxn = None, lockObj = Some l\<rparr>
            = Inr (s1\<lparr>openTxn := Some t\<rparr>\<lparr>committed := t, openTxn := None\<rparr>)"
        using Inr by (simp add: e1 e2 execStmt_Commit[OF o2])
      then show ?thesis unfolding tk using 4 t by simp
    qed
  next
    case 5
    then have tk: "take k [CreateStoreTransaction, RegisterValidPath p h, Commit, SetDeletion True]
                     = [CreateStoreTransaction, RegisterValidPath p h, Commit, SetDeletion True]"
      by simp
    show ?thesis
    proof (cases "registerValidPath X G D p h")
      case (Inl e)
      then show ?thesis unfolding tk using 5 by (simp add: e1 e2 f1)
    next
      case (Inr t)
      have o2: "openTxn (s1\<lparr>openTxn := Some t\<rparr>) = Some t" by simp
      from registerValidPath_result[OF Inr]
      have t: "t = D\<lparr>dbValidPaths := (dbValidPaths D)(canonPath X p \<mapsto> ''sha256:'' @ printHash X h)\<rparr>"
        by blast
      define s3 where "s3 = s1\<lparr>openTxn := Some t\<rparr>\<lparr>committed := t, openTxn := None\<rparr>"
      have f3: "committed s3 = t" "lockObj s3 = Some l" by (simp_all add: s3_def f1)
      have r3: "foldE (execStmt X G)
                  [CreateStoreTransaction, RegisterValidPath p h, Commit, SetDeletion True]
                  \<lparr>committed = D, openTxn = None, lockObj = Some l\<rparr>
                = execStmt X G (SetDeletion True) s3"
        using Inr by (simp add: e1 e2 execStmt_Commit[OF o2] s3_def split: sum.splits)
      have "execStmt X G (SetDeletion True) s3 = Inr (s3\<lparr>lockObj := Some (setDeletion True l)\<rparr>)"
        using f3 by (simp add: execStmt_SetDeletion)
      then show ?thesis unfolding tk r3 using 5 f3 t by simp
    qed
  qed
qed

lemma makeSubstitutionGoal_db:
  "db (snd (makeSubstitutionGoal p W)) = db W"
  by (simp add: makeSubstitutionGoal_def Let_def split: option.splits)

lemma addWaitee_db:
  fixes W :: "'fs World"
  shows "db (addWaitee this g W) = db W"
  by (simp add: addWaitee_def)

lemma init_fold_db:
  fixes W :: "'fs World"
  shows "db (fold (\<lambda>i W'. case makeSubstitutionGoal i W' of (g, W'') \<Rightarrow> addWaitee this g W'') xs W)
           = db W"
proof (induction xs arbitrary: W)
  case Nil
  then show ?case by simp
next
  case (Cons a xs)
  obtain g W1 where m: "makeSubstitutionGoal a W = (g, W1)" by (cases "makeSubstitutionGoal a W")
  have "db W1 = db W" using makeSubstitutionGoal_db[of a W] m by simp
  then show ?case using Cons.IH[of "addWaitee this g W1"] m by (simp add: addWaitee_db)
qed

lemma tryNext_frame:
  assumes "tryNext G this sg W = Inr (u, sg', W')"
  shows "references sg' = references sg \<and> storePath sg' = storePath sg \<and> db W' = db W"
proof (cases "subs sg")
  case Nil
  then show ?thesis using assms amDone_world[of G this False W]
    by (auto simp: tryNext_def split: sum.splits)
next
  case (Cons x rest)
  then show ?thesis using assms by (auto simp: tryNext_def Let_def split: sum.splits)
qed

lemma referencesValid_frame:
  assumes "referencesValid G this sg W = Inr (u, sg', W')"
  shows "references sg' = references sg \<and> storePath sg' = storePath sg \<and> db W' = db W"
  using assms tryNext_frame[of G this sg W u sg' W']
  by (auto simp: referencesValid_def split: option.splits if_splits)

lemma init_result:
  assumes nv: "\<not> isValidPath (db W) (storePath sg)"
    and run: "init G this sg W = Inr (u, sg', W')"
  shows "isRealisablePath (db W) (storePath sg)
     \<and> references sg' = references sg |\<union>| fset_of_list (queryStrings (dbReferences (db W)) (storePath sg))
     \<and> storePath sg' = storePath sg \<and> db W' = db W"
proof -
  define sg1 where "sg1 = sg\<lparr>subs := querySubstitutes (db W) (storePath sg)\<rparr>"
  from run nv obtain refs where
    q: "queryReferences (db W) (storePath sg1) (references sg1) = Inr refs"
    by (auto simp: init_def Let_def sg1_def split: sum.splits)
  define sg2 where "sg2 = sg1\<lparr>references := refs\<rparr>"
  define W1 where "W1 = fold (\<lambda>i W'. case makeSubstitutionGoal i W' of (g, W'') \<Rightarrow> addWaitee this g W'')
                           (sorted_list_of_fset refs) W"
  have d1: "db W1 = db W" unfolding W1_def by (rule init_fold_db)
  from q have rl: "isRealisablePath (db W) (storePath sg)"
    and rf: "refs = references sg |\<union>| fset_of_list (queryStrings (dbReferences (db W)) (storePath sg))"
    by (auto simp: queryReferences_def sg1_def split: if_splits)
  have r2: "(case goals W1 this of
               None \<Rightarrow> Inl (Abort, sg2, W1)
             | Some t \<Rightarrow> if waitees t = {||} then referencesValid G this sg2 W1
                         else Inr ((), sg2\<lparr>sstate := ssReferencesValid\<rparr>, W1)) = Inr (u, sg', W')"
    using run[unfolded init_def Let_def] nv q unfolding sg2_def W1_def sg1_def by simp
  have "references sg' = refs \<and> storePath sg' = storePath sg \<and> db W' = db W1"
  proof (cases "goals W1 this")
    case None
    then show ?thesis using r2 by simp
  next
    case (Some t)
    show ?thesis
    proof (cases "waitees t = {||}")
      case True
      then have "referencesValid G this sg2 W1 = Inr (u, sg', W')" using r2 Some by simp
      from referencesValid_frame[OF this] show ?thesis by (simp add: sg2_def sg1_def)
    next
      case False
      then show ?thesis using r2 Some by (auto simp: sg2_def sg1_def)
    qed
  qed
  then show ?thesis using rl rf d1 by simp
qed

text \<open>
  Claim C2. Let \<^verbatim>\<open>finished\<close> run for a goal whose substituter is a registered child
  (\<^verbatim>\<open>childTerminated\<close> succeeds). If the exit status is not zero or the store path does
  not exist, \<^verbatim>\<open>finished\<close> returns with the state set to \<^verbatim>\<open>tryNext\<close> and the goal woken
  up, and the database is untouched. Otherwise, when \<^verbatim>\<open>finished\<close> returns, the path has
  been canonicalised, its contents have been hashed after that, and the database
  differs from the old one in one entry only: the path is valid, with that hash. The
  table of references is the old one, and so is the \<open>references\<close> field of the goal:
  the output is not scanned, and the references that go with the path are the ones
  declared before. The change is made by one transaction: whatever prefix of its four
  statements has run, the committed tables are the old ones before the commit and the
  new ones after it, and the lock is marked after the commit. And \<^verbatim>\<open>init\<close>, for a path
  that is not valid yet, fills \<open>references\<close> with what the table of references holds
  for the path (\<^verbatim>\<open>queryReferences\<close>) and writes nothing to the database.
\<close>

theorem C2_substitution_finished:
  assumes ct: "childTerminated (goals W) (spid sg) True (worker W) = Inr w'"
  shows "(\<not> statusOk status \<or> \<not> pathExists X (fs W) (storePath sg) \<longrightarrow>
            finished X G status this sg W =
              Inr ((), sg\<lparr>spid := - 1, sstate := ssTryNext\<rparr>, W\<lparr>worker := wakeUp this w'\<rparr>))
     \<and> (\<forall>u sg' W'. statusOk status \<and> pathExists X (fs W) (storePath sg)
            \<and> finished X G status this sg W = Inr (u, sg', W') \<longrightarrow>
            (\<exists>f h l. canonicalisePathMetaData X (fs W) (storePath sg) = Inr f
               \<and> hashPath X htSHA256 f (storePath sg) = Inr h \<and> fs W' = f
               \<and> db W' = (db W)\<lparr>dbValidPaths := (dbValidPaths (db W))(canonPath X (storePath sg) \<mapsto>
                                      ''sha256:'' @ printHash X h)\<rparr>
               \<and> dbReferences (db W') = dbReferences (db W)
               \<and> references sg' = references sg
               \<and> outputLock sg = Some l \<and> outputLock sg' = Some (setDeletion True l)))
     \<and> (\<forall>h l k. outputLock sg = Some l \<longrightarrow>
           (case foldE (execStmt X G)
                   (take k [CreateStoreTransaction, RegisterValidPath (storePath sg) h, Commit,
                            SetDeletion True])
                   \<lparr>committed = db W, openTxn = None, lockObj = Some l\<rparr> of
              Inl (e, s) \<Rightarrow> committed s = db W \<and> lockObj s = Some l
            | Inr s \<Rightarrow>
                if k < 3 then committed s = db W \<and> lockObj s = Some l
                else committed s = (db W)\<lparr>dbValidPaths := (dbValidPaths (db W))
                                     (canonPath X (storePath sg) \<mapsto> ''sha256:'' @ printHash X h)\<rparr>))
     \<and> (\<forall>u sg0 W0 sg1 W1. \<not> isValidPath (db W0) (storePath sg0)
            \<and> init G this sg0 (W0 :: 'fs World) = Inr (u, sg1, W1) \<longrightarrow>
            references sg1 = references sg0 |\<union>|
                               fset_of_list (queryStrings (dbReferences (db W0)) (storePath sg0))
            \<and> storePath sg1 = storePath sg0 \<and> db W1 = db W0)"
proof (intro conjI allI impI)
  assume "\<not> statusOk status \<or> \<not> pathExists X (fs W) (storePath sg)"
  then show "finished X G status this sg W =
              Inr ((), sg\<lparr>spid := - 1, sstate := ssTryNext\<rparr>, W\<lparr>worker := wakeUp this w'\<rparr>)"
    using ct by (auto simp: finished_def Let_def)
next
  fix u sg' W'
  assume a: "statusOk status \<and> pathExists X (fs W) (storePath sg)
            \<and> finished X G status this sg W = Inr (u, sg', W')"
  from a have a1: "statusOk status" and a2: "pathExists X (fs W) (storePath sg)"
    and a3: "finished X G status this sg W = Inr (u, sg', W')" by simp_all
  define sg1 where "sg1 = sg\<lparr>spid := - 1\<rparr>"
  define W1 where "W1 = W\<lparr>worker := w'\<rparr>"
  have fin: "(case canonicalisePathMetaData X (fs W1) (storePath sg1) of
                Inl e \<Rightarrow> Inl (e, sg1, W1)
              | Inr f \<Rightarrow>
                  (case hashPath X htSHA256 f (storePath sg1) of
                     Inl e \<Rightarrow> Inl (e, sg1, W1\<lparr>fs := f\<rparr>)
                   | Inr contentHash \<Rightarrow>
                       (case foldE (execStmt X G)
                               [CreateStoreTransaction,
                                RegisterValidPath (storePath sg1) contentHash,
                                Commit,
                                SetDeletion True]
                               \<lparr>committed = db W1, openTxn = None, lockObj = outputLock sg1\<rparr> of
                          Inl (e, r) \<Rightarrow>
                            Inl (e, sg1\<lparr>outputLock := lockObj r\<rparr>, W1\<lparr>fs := f, db := committed r\<rparr>)
                        | Inr r \<Rightarrow>
                            (case amDone G this True (W1\<lparr>fs := f, db := committed r\<rparr>) of
                               Inl e \<Rightarrow> Inl (e, sg1\<lparr>outputLock := lockObj r\<rparr>,
                                             W1\<lparr>fs := f, db := committed r\<rparr>)
                             | Inr W3 \<Rightarrow> Inr ((), sg1\<lparr>outputLock := lockObj r\<rparr>, W3)))))
             = Inr (u, sg', W')"
    using a3[unfolded finished_def Let_def] a1 a2 ct unfolding sg1_def W1_def by simp
  from fin obtain f where f: "canonicalisePathMetaData X (fs W1) (storePath sg1) = Inr f"
    by (cases "canonicalisePathMetaData X (fs W1) (storePath sg1)") auto
  from fin f obtain h where h: "hashPath X htSHA256 f (storePath sg1) = Inr h"
    by (cases "hashPath X htSHA256 f (storePath sg1)") auto
  from fin f h obtain r where r: "foldE (execStmt X G)
                               [CreateStoreTransaction, RegisterValidPath (storePath sg1) h,
                                Commit, SetDeletion True]
                               \<lparr>committed = db W1, openTxn = None, lockObj = outputLock sg1\<rparr> = Inr r"
    by (cases "foldE (execStmt X G)
                               [CreateStoreTransaction, RegisterValidPath (storePath sg1) h,
                                Commit, SetDeletion True]
                               \<lparr>committed = db W1, openTxn = None, lockObj = outputLock sg1\<rparr>") auto
  from fin f h r obtain W3 where
    am: "amDone G this True (W1\<lparr>fs := f, db := committed r\<rparr>) = Inr W3"
    and res: "sg' = sg1\<lparr>outputLock := lockObj r\<rparr>" "W' = W3"
    by (cases "amDone G this True (W1\<lparr>fs := f, db := committed r\<rparr>)") auto
  from substitute_registration[OF r] obtain l where
    l: "outputLock sg1 = Some l" "lockObj r = Some (setDeletion True l)"
       "committed r = (db W1)\<lparr>dbValidPaths := (dbValidPaths (db W1))(canonPath X (storePath sg1) \<mapsto>
                                  ''sha256:'' @ printHash X h)\<rparr>"
    by blast
  from amDone_world[OF am] have w3: "db W3 = committed r" "fs W3 = f" by simp_all
  have "canonicalisePathMetaData X (fs W) (storePath sg) = Inr f
               \<and> hashPath X htSHA256 f (storePath sg) = Inr h \<and> fs W' = f
               \<and> db W' = (db W)\<lparr>dbValidPaths := (dbValidPaths (db W))(canonPath X (storePath sg) \<mapsto>
                                      ''sha256:'' @ printHash X h)\<rparr>
               \<and> dbReferences (db W') = dbReferences (db W)
               \<and> references sg' = references sg
               \<and> outputLock sg = Some l \<and> outputLock sg' = Some (setDeletion True l)"
    using f h l w3 res by (simp add: sg1_def W1_def)
  then show "\<exists>f h l. canonicalisePathMetaData X (fs W) (storePath sg) = Inr f
               \<and> hashPath X htSHA256 f (storePath sg) = Inr h \<and> fs W' = f
               \<and> db W' = (db W)\<lparr>dbValidPaths := (dbValidPaths (db W))(canonPath X (storePath sg) \<mapsto>
                                      ''sha256:'' @ printHash X h)\<rparr>
               \<and> dbReferences (db W') = dbReferences (db W)
               \<and> references sg' = references sg
               \<and> outputLock sg = Some l \<and> outputLock sg' = Some (setDeletion True l)"
    by blast
next
  fix h l k
  assume "outputLock sg = Some l"
  show "case foldE (execStmt X G)
                   (take k [CreateStoreTransaction, RegisterValidPath (storePath sg) h, Commit,
                            SetDeletion True])
                   \<lparr>committed = db W, openTxn = None, lockObj = Some l\<rparr> of
              Inl (e, s) \<Rightarrow> committed s = db W \<and> lockObj s = Some l
            | Inr s \<Rightarrow>
                if k < 3 then committed s = db W \<and> lockObj s = Some l
                else committed s = (db W)\<lparr>dbValidPaths := (dbValidPaths (db W))
                                     (canonPath X (storePath sg) \<mapsto> ''sha256:'' @ printHash X h)\<rparr>"
    by (rule substitute_prefix)
next
  fix u sg0 and W0 :: "'fs World" and sg1 W1
  assume a: "\<not> isValidPath (db W0) (storePath sg0) \<and> init G this sg0 W0 = Inr (u, sg1, W1)"
  from init_result[of W0 sg0 G this u sg1 W1] a
  show "references sg1 = references sg0 |\<union>|
                               fset_of_list (queryStrings (dbReferences (db W0)) (storePath sg0))"
    "storePath sg1 = storePath sg0" "db W1 = db W0"
    by simp_all
qed

theorem C2_substitution_finished_witness:
  "(\<exists>sg' W'. finished ex_X ex_G 0 4 ex_sg ex_sub_W = Inr ((), sg', W')
       \<and> dbValidPaths (db W') ''/nix/store/bbb-foo'' = Some ''sha256:h:/nix/store/bbb-foo''
       \<and> dbReferences (db W') ''/nix/store/bbb-foo'' = Some [''/nix/store/ccc-dep'']
       \<and> references sg' = {|''/nix/store/ccc-dep''|})
   \<and> (\<exists>sg' W'. finished ex_X ex_G 1 4 ex_sg ex_sub_W = Inr ((), sg', W')
          \<and> sstate sg' = ssTryNext \<and> db W' = db ex_sub_W)"
proof -
  have "\<exists>w'. childTerminated (goals ex_sub_W) (spid ex_sg) True (worker ex_sub_W) = Inr w'"
    by (simp add: childTerminated_def childStarted_def Worker_init_def ex_sub_W_def ex_sg_def
        Let_def)
  then obtain w' where
    ct: "childTerminated (goals ex_sub_W) (spid ex_sg) True (worker ex_sub_W) = Inr w'" by blast
  note T = C2_substitution_finished[OF ct, where X=ex_X and G=ex_G and this=4]
  have s0: "statusOk 0" and s1: "\<not> statusOk 1" by (simp_all add: statusOk_def)
  have pe: "pathExists ex_X (fs ex_sub_W) (storePath ex_sg)"
    by (simp add: ex_X_def ex_sub_W_def ex_W_def ex_sg_def)
  have "\<exists>sg' W'. finished ex_X ex_G 0 4 ex_sg ex_sub_W = Inr ((), sg', W')"
    by (simp add: finished_def childTerminated_def childStarted_def Worker_init_def ex_sub_W_def
        ex_sg_def ex_W_def ex_X_def ex_G_def ex_db_def Let_def statusOk_def execStmt_def
        registerValidPath_def setHash_def assertStorePath_def isStorePath_def isInStore_def
        amDone_def Goal_init_def updGoal_def sorted_list_of_fset.rep_eq)
  then obtain sg' W' where run: "finished ex_X ex_G 0 4 ex_sg ex_sub_W = Inr ((), sg', W')"
    by blast
  from T[where status=0, THEN conjunct2, THEN conjunct1, THEN spec, THEN spec, THEN spec, THEN mp,
      OF conjI[OF s0 conjI[OF pe run]]]
  obtain f h l where
    r: "hashPath ex_X htSHA256 f (storePath ex_sg) = Inr h"
       "db W' = (db ex_sub_W)\<lparr>dbValidPaths := (dbValidPaths (db ex_sub_W))
                  (canonPath ex_X (storePath ex_sg) \<mapsto> ''sha256:'' @ printHash ex_X h)\<rparr>"
       "references sg' = references ex_sg"
    by blast
  have h: "h = Hash htSHA256 ''h:/nix/store/bbb-foo''" using r(1) by (simp add: ex_X_def ex_sg_def)
  have v: "dbValidPaths (db W') ''/nix/store/bbb-foo'' = Some ''sha256:h:/nix/store/bbb-foo''"
    unfolding r(2) h by (simp add: ex_X_def ex_sg_def)
  have rf: "dbReferences (db W') ''/nix/store/bbb-foo'' = Some [''/nix/store/ccc-dep'']"
    unfolding r(2) by (simp add: ex_sub_W_def)
  have rs: "references sg' = {|''/nix/store/ccc-dep''|}" using r(3) by (simp add: ex_sg_def)
  from T[where status=1, THEN conjunct1] s1
  have bad: "finished ex_X ex_G 1 4 ex_sg ex_sub_W =
      Inr ((), ex_sg\<lparr>spid := - 1, sstate := ssTryNext\<rparr>, ex_sub_W\<lparr>worker := wakeUp 4 w'\<rparr>)"
    by simp
  have b1: "sstate (ex_sg\<lparr>spid := - 1, sstate := ssTryNext\<rparr>) = ssTryNext" by simp
  have b2: "db (ex_sub_W\<lparr>worker := wakeUp 4 w'\<rparr>) = db ex_sub_W" by simp
  show ?thesis
    apply (rule conjI)
     apply (rule exI[where x=sg'], rule exI[where x=W'])
     apply (intro conjI)
        apply (rule run)
       apply (rule v)
      apply (rule rf)
     apply (rule rs)
    apply (rule exI[where x="ex_sg\<lparr>spid := - 1, sstate := ssTryNext\<rparr>"],
        rule exI[where x="ex_sub_W\<lparr>worker := wakeUp 4 w'\<rparr>"])
    apply (intro conjI)
      apply (rule bad)
     apply (rule b1)
    apply (rule b2)
    done
qed

end
